theory Spec2Isabelle
  imports Complex_Main "HOL-Library.Word"
begin

section \<open>GeminiService: media processors, aggregation and final synthesis\<close>

text \<open>
  A shallow embedding of \<^verbatim>\<open>src/backend/services/GeminiService.js\<close>.

  \<^item> A JavaScript string is a sequence of UTF-16 code units: \<open>16 word list\<close>.
  \<^item> A JavaScript value is \<open>jsval\<close>; an object literal is the list of its own
    properties in insertion order.
  \<^item> An \<^verbatim>\<open>async\<close> method returns \<open>Inr v\<close> when its promise is fulfilled with
    \<open>v\<close> and \<open>Inl e\<close> when it is rejected with \<open>e\<close>.
  \<^item> The remote model is a parameter. Its outcome may depend on every request sent
    before and on the current request; the state threaded through the methods is the
    list of requests sent so far, so each call is visible in the result.
  \<^item> The file system is a parameter: for a path, the base64 text of the file, or the
    error that \<^verbatim>\<open>readFileSync\<close> throws.
  \<^item> A JavaScript number is an IEEE binary64 value, kept as the rational it is equal
    to. A decimal literal of the source denotes the nearest such value, and \<^verbatim>\<open>+\<close> and
    \<^verbatim>\<open>*\<close> round their exact result to the nearest such value, ties to even.
\<close>

subsection \<open>Strings and values\<close>

type_synonym jsstring = "16 word list"

definition js :: "string \<Rightarrow> jsstring" where
  "js s = map (\<lambda>c. of_char c) s"

datatype jsval = Undefined | Str jsstring | Bool bool | Obj "(string \<times> jsval) list"

type_synonym obj = "(string \<times> jsval) list"

text \<open>Property read \<^verbatim>\<open>o.k\<close>: \<^verbatim>\<open>undefined\<close> when the object has no such property.\<close>

definition get :: "obj \<Rightarrow> string \<Rightarrow> jsval" where
  "get ob k = (case map_of ob k of None \<Rightarrow> Undefined | Some v \<Rightarrow> v)"

text \<open>ToBoolean, as used by \<^verbatim>\<open>!x\<close>, \<^verbatim>\<open>x ? a : b\<close>, \<^verbatim>\<open>x || y\<close> and \<^verbatim>\<open>filter(Boolean)\<close>.\<close>

fun truthy :: "jsval \<Rightarrow> bool" where
  "truthy Undefined = False"
| "truthy (Str s) = (s \<noteq> [])"
| "truthy (Bool b) = b"
| "truthy (Obj ps) = True"

text \<open>ToString, as used by a template literal.\<close>

fun toString :: "jsval \<Rightarrow> jsstring" where
  "toString Undefined = js ''undefined''"
| "toString (Str s) = s"
| "toString (Bool b) = (if b then js ''true'' else js ''false'')"
| "toString (Obj ps) = js ''[object Object]''"

definition of_text :: "jsstring option \<Rightarrow> jsval" where
  "of_text t = (case t of None \<Rightarrow> Undefined | Some s \<Rightarrow> Str s)"

text \<open>
  White space and line terminators, the code units that \<^verbatim>\<open>String.prototype.trim\<close>
  strips from both ends.
\<close>

definition isWhiteSpace :: "16 word \<Rightarrow> bool" where
  "isWhiteSpace c \<longleftrightarrow>
     c = 0x0009 \<or> c = 0x000A \<or> c = 0x000B \<or> c = 0x000C \<or> c = 0x000D \<or> c = 0x0020 \<or>
     c = 0x00A0 \<or> c = 0x1680 \<or> (0x2000 \<le> c \<and> c \<le> 0x200A) \<or> c = 0x2028 \<or> c = 0x2029 \<or>
     c = 0x202F \<or> c = 0x205F \<or> c = 0x3000 \<or> c = 0xFEFF"

definition trim :: "jsstring \<Rightarrow> jsstring" where
  "trim s = rev (dropWhile isWhiteSpace (rev (dropWhile isWhiteSpace s)))"

text \<open>Decimal digits of a non-negative integer, as \<^verbatim>\<open>${i + 1}\<close> prints it.\<close>

fun decimal :: "nat \<Rightarrow> jsstring" where
  "decimal n =
     (if n < 10 then [of_nat (48 + n)] else decimal (n div 10) @ [of_nat (48 + n mod 10)])"

declare decimal.simps [simp del]

text \<open>
  \<^verbatim>\<open>toUpperCase\<close> of one code unit, for the ASCII letters: the source applies it
  to the first letter of the five kind names only.
\<close>

definition toUpperCase :: "16 word \<Rightarrow> 16 word" where
  "toUpperCase c = (if 0x61 \<le> c \<and> c \<le> 0x7A then c - 0x20 else c)"

text \<open>\<^verbatim>\<open>type.charAt(0).toUpperCase() + type.slice(1)\<close>\<close>

definition capitalize :: "jsstring \<Rightarrow> jsstring" where
  "capitalize s = map toUpperCase (take 1 s) @ drop 1 s"

text \<open>\<^verbatim>\<open>xs.map((x, i) => f(x, i))\<close>\<close>

definition mapi :: "('a \<Rightarrow> nat \<Rightarrow> 'b) \<Rightarrow> 'a list \<Rightarrow> 'b list" where
  "mapi f xs = map (\<lambda>(i, x). f x i) (enumerate 0 xs)"

text \<open>\<^verbatim>\<open>xs.join(sep)\<close>\<close>

fun join :: "jsstring \<Rightarrow> jsstring list \<Rightarrow> jsstring" where
  "join sep [] = []"
| "join sep [x] = x"
| "join sep (x # y # ys) = x @ sep @ join sep (y # ys)"

subsection \<open>Numbers\<close>

text \<open>Rounding of a rational to the nearest integer, a tie going to the even one.\<close>

definition round_ties_even :: "rat \<Rightarrow> int" where
  "round_ties_even x =
     (let f = \<lfloor>x\<rfloor>; r = x - of_int f
      in if r < 1 / 2 then f else if 1 / 2 < r then f + 1 else if even f then f else f + 1)"

text \<open>
  The binary exponent of a positive rational \<open>x\<close>: the integer \<open>e\<close> with
  \<open>2 ^ e \<le> x < 2 ^ (e + 1)\<close>, found by doubling or halving \<open>x\<close> into \<open>[1, 2)\<close>.
\<close>

function exponent :: "rat \<Rightarrow> int" where
  "exponent x =
     (if x \<le> 0 then 0
      else if x < 1 then exponent (2 * x) - 1
      else if 2 \<le> x then exponent (x / 2) + 1
      else 0)"
  by pat_completeness auto
termination
proof (relation "measure (\<lambda>x. 2 * nat \<lceil>1 / x\<rceil> + nat \<lfloor>x\<rfloor>)")
  show "wf (measure (\<lambda>x::rat. 2 * nat \<lceil>1 / x\<rceil> + nat \<lfloor>x\<rfloor>))" by simp
next
  fix x :: rat
  assume "\<not> x \<le> 0" and x1: "x < 1"
  then have x0: "0 < x" by simp
  have fx: "\<lfloor>x\<rfloor> = 0" using x0 x1 by (simp add: floor_eq_iff)
  have "1 < 1 / x" using x0 x1 by simp
  then have c2: "2 \<le> \<lceil>1 / x\<rceil>" by (simp add: le_ceiling_iff)
  have "2 * nat \<lceil>1 / (2 * x)\<rceil> + nat \<lfloor>2 * x\<rfloor> < 2 * nat \<lceil>1 / x\<rceil> + nat \<lfloor>x\<rfloor>"
  proof (cases "2 * x < 1")
    case True
    then have f0: "\<lfloor>2 * x\<rfloor> = 0" using x0 by (simp add: floor_eq_iff)
    have "2 < 1 / x" using True x0 by (simp add: field_simps)
    then have c3: "3 \<le> \<lceil>1 / x\<rceil>" by (simp add: le_ceiling_iff)
    have "1 / (2 * x) \<le> of_int \<lceil>1 / x\<rceil> / 2"
      using le_of_int_ceiling[of "1 / x"] by (simp add: field_simps)
    also have "\<dots> \<le> of_int (\<lceil>1 / x\<rceil> - 1)" using c3 by simp
    finally have "1 / (2 * x) \<le> of_int (\<lceil>1 / x\<rceil> - 1)" .
    then have "\<lceil>1 / (2 * x)\<rceil> \<le> \<lceil>1 / x\<rceil> - 1" by (rule ceiling_le)
    then have "nat \<lceil>1 / (2 * x)\<rceil> < nat \<lceil>1 / x\<rceil>" using c3 by linarith
    then show ?thesis unfolding f0 fx by linarith
  next
    case False
    then have f1: "\<lfloor>2 * x\<rfloor> = 1" using x1 by (simp add: floor_eq_iff)
    have c1: "\<lceil>1 / (2 * x)\<rceil> = 1"
      using False x0 by (simp add: ceiling_eq_iff field_simps)
    show ?thesis unfolding f1 c1 fx using c2 by linarith
  qed
  then show "(2 * x, x) \<in> measure (\<lambda>x. 2 * nat \<lceil>1 / x\<rceil> + nat \<lfloor>x\<rfloor>)" by simp
next
  fix x :: rat
  assume "\<not> x \<le> 0" "\<not> x < 1" and x2: "2 \<le> x"
  have c1: "\<lceil>1 / (x / 2)\<rceil> = 1" using x2 by (simp add: ceiling_eq_iff field_simps)
  have c2: "\<lceil>1 / x\<rceil> = 1" using x2 by (simp add: ceiling_eq_iff field_simps)
  have f2: "2 \<le> \<lfloor>x\<rfloor>" using x2 by (simp add: le_floor_iff)
  have "x < of_int \<lfloor>x\<rfloor> + 1" by linarith
  moreover have "(2::rat) \<le> of_int \<lfloor>x\<rfloor>"
    using f2 by (simp add: of_int_le_iff[symmetric] del: of_int_le_iff)
  ultimately have "x / 2 < of_int \<lfloor>x\<rfloor>" by linarith
  then have "\<lfloor>x / 2\<rfloor> < \<lfloor>x\<rfloor>" by (simp add: floor_less_iff)
  then have "2 * nat \<lceil>1 / (x / 2)\<rceil> + nat \<lfloor>x / 2\<rfloor> < 2 * nat \<lceil>1 / x\<rceil> + nat \<lfloor>x\<rfloor>"
    unfolding c1 c2 using f2 by linarith
  then show "(x / 2, x) \<in> measure (\<lambda>x. 2 * nat \<lceil>1 / x\<rceil> + nat \<lfloor>x\<rfloor>)" by simp
qed

declare exponent.simps [simp del]

definition pow2 :: "int \<Rightarrow> rat" where
  "pow2 k = (if 0 \<le> k then 2 ^ nat k else 1 / 2 ^ nat (- k))"

text \<open>
  The binary64 value nearest to a rational, ties to even: the rational is rounded to a
  multiple of the unit in the last place of its binade, which leaves 53 significant
  bits. Overflow and subnormal numbers are outside what is modelled; the numbers of the
  source lie between 0.01 and 2048.
\<close>

definition binary64 :: "rat \<Rightarrow> rat" where
  "binary64 x =
     (if x = 0 then 0
      else let ulp = pow2 (exponent \<bar>x\<bar> - 52)
           in sgn x * of_int (round_ties_even (\<bar>x\<bar> / ulp)) * ulp)"

subsection \<open>The remote model and the file system\<close>

text \<open>
  A thrown value: \<^verbatim>\<open>undefined\<close>, \<^verbatim>\<open>null\<close>, or any other value, with its \<^verbatim>\<open>message\<close>
  property when that is a string (\<open>None\<close> when the value has no message).
\<close>

datatype exn = Thrown_undefined | Thrown_null | Exn "jsstring option"

datatype part = InlineData (mimeType: jsstring) (data: jsstring) | Text jsstring

record config =
  maxOutputTokens :: nat
  temperature :: rat
  systemInstruction :: "jsstring option"

record request =
  model :: jsstring
  contents :: "part list"
  config :: config

text \<open>
  The response of \<^verbatim>\<open>generateContent\<close>: its \<^verbatim>\<open>text\<close> is a string, or \<^verbatim>\<open>undefined\<close>
  when the response carries no text. The retry loop of the source tests
  \<^verbatim>\<open>!response.text\<close> before it calls \<^verbatim>\<open>trim\<close> on it.
\<close>

datatype response = Response (response_text: "jsstring option")

type_synonym remote = "request list \<Rightarrow> request \<Rightarrow> exn + response"

type_synonym fs = "jsstring \<Rightarrow> exn + jsstring"

text \<open>
  \<^verbatim>\<open>await this.ai.models.generateContent(req)\<close>: the outcome, and the request
  appended to the requests sent so far.
\<close>

definition generateContent :: "remote \<Rightarrow> request \<Rightarrow> request list \<Rightarrow> (exn + response) \<times> request list" where
  "generateContent ai req h = (ai h req, h @ [req])"

text \<open>
  \<^verbatim>\<open>readFileSync(path, 'base64')\<close> and \<^verbatim>\<open>readFileSync(path).toString('base64')\<close>:
  both give the base64 text of the file, or throw.
\<close>

definition readFileSync :: "fs \<Rightarrow> jsstring \<Rightarrow> exn + jsstring" where
  "readFileSync files path = files path"

subsection \<open>The service and its constructor\<close>

record service =
  this_ai :: remote
  this_model :: jsstring

definition new_GeminiService :: "(jsval \<Rightarrow> remote) \<Rightarrow> jsval \<Rightarrow> exn + service" where
  "new_GeminiService GoogleGenAI apiKey =
     (if \<not> truthy apiKey then Inl (Exn (Some (js ''Se requiere una API key de Gemini'')))
      else Inr \<lparr>this_ai = GoogleGenAI apiKey,
                this_model = js ''gemini-2.5-flash-preview-04-17''\<rparr>)"

subsection \<open>The five media processors\<close>

definition image_instruction :: jsstring where
  "image_instruction = js ''Examine the image thoroughly. Describe every detail, including all objects, colors, textures, actions, and backgrounds. Note the position, size, and shape of each element. Capture any text, lighting, or patterns. Provide a precise, comprehensive description to fully represent the image without assumptions or interpretations.''"

definition audio_instruction :: jsstring where
  "audio_instruction = js ''Listen to the audio carefully. Transcribe every word exactly as spoken, including tone, pauses, and any background sounds. Describe the speaker's accent, speed, and emotional tone. Note any unclear parts and timestamp them. Provide a precise, detailed summary of the content without adding interpretations.''"

definition video_instruction :: jsstring where
  "video_instruction = js ''Watch the video closely. Describe every detail, including all actions, objects, colors, textures, and backgrounds. Note the sequence, timing, and duration of events. Capture any text, lighting, camera angles, or sound elements. If evident, identify and describe the emotional or sentimental tone (e.g., joy, sadness, enthusiasm) based on clear cues like facial expressions, voice tone, or music, without assumptions. For neutral content, such as stock or demonstration videos, note the absence of emotional tone. Provide a precise, comprehensive description to fully represent the video.''"

definition sticker_instruction :: jsstring where
  "sticker_instruction = js ''Examine the sticker closely. Identify and describe the specific emotions, feelings, or allusions it conveys, such as affection, gratitude, joy, or affirmation. Focus solely on the intended emotional purpose, inferred from clear visual cues like expressions, symbols (e.g., hearts), or actions. Avoid describing the image's content or making assumptions beyond evident emotional intent. Provide a precise, concise analysis of the sticker's emotional message.''"

definition document_instruction :: jsstring where
  "document_instruction = js ''Examine the document meticulously. Extract and list all key factual information, technical specifications, data points, and specific details with precision. Summarize the content accurately, focusing solely on objective information. Exclude any interpretation, sentiment analysis, or assumptions. Ensure the summary is concise, technical, and faithful to the document's content.''"

text \<open>
  In each processor the \<^verbatim>\<open>contents\<close> array, and with it the file read, is built
  before the \<^verbatim>\<open>try\<close> block: an error thrown by the read rejects the promise and no
  request is sent. Only the remote call is inside \<^verbatim>\<open>try\<close>.
\<close>

definition processImage :: "service \<Rightarrow> fs \<Rightarrow> jsstring \<Rightarrow> request list \<Rightarrow> (exn + obj) \<times> request list" where
  "processImage this files imagePath h =
     (case readFileSync files imagePath of
        Inl e \<Rightarrow> (Inl e, h)
      | Inr d \<Rightarrow>
          (let contents = [InlineData (js ''image/jpeg'') d, Text image_instruction] in
           case generateContent (this_ai this)
                  \<lparr>model = this_model this, contents = contents,
                   config = \<lparr>maxOutputTokens = 2048, temperature = binary64 (85 / 100),
                             systemInstruction = None\<rparr>\<rparr> h of
             (Inr response, h') \<Rightarrow> (Inr [(''content'', of_text (response_text response))], h')
           | (Inl _, h') \<Rightarrow>
               (Inr [(''processed'', Bool False),
                     (''error'', Str (js ''Error al procesar imagen''))], h')))"

definition processAudio :: "service \<Rightarrow> fs \<Rightarrow> jsstring \<Rightarrow> request list \<Rightarrow> (exn + obj) \<times> request list" where
  "processAudio this files audioPath h =
     (case readFileSync files audioPath of
        Inl e \<Rightarrow> (Inl e, h)
      | Inr d \<Rightarrow>
          (let contents = [Text audio_instruction, InlineData (js ''audio/mp3'') d] in
           case generateContent (this_ai this)
                  \<lparr>model = this_model this, contents = contents,
                   config = \<lparr>maxOutputTokens = 2048, temperature = binary64 (85 / 100),
                             systemInstruction = None\<rparr>\<rparr> h of
             (Inr response, h') \<Rightarrow> (Inr [(''content'', of_text (response_text response))], h')
           | (Inl _, h') \<Rightarrow>
               (Inr [(''processed'', Bool False),
                     (''error'', Str (js ''Error al procesar audio''))], h')))"

definition processVideo :: "service \<Rightarrow> fs \<Rightarrow> jsstring \<Rightarrow> request list \<Rightarrow> (exn + obj) \<times> request list" where
  "processVideo this files videoPath h =
     (case readFileSync files videoPath of
        Inl e \<Rightarrow> (Inl e, h)
      | Inr d \<Rightarrow>
          (let contents = [InlineData (js ''video/mp4'') d, Text video_instruction] in
           case generateContent (this_ai this)
                  \<lparr>model = this_model this, contents = contents,
                   config = \<lparr>maxOutputTokens = 2048, temperature = binary64 (85 / 100),
                             systemInstruction = None\<rparr>\<rparr> h of
             (Inr response, h') \<Rightarrow> (Inr [(''content'', of_text (response_text response))], h')
           | (Inl _, h') \<Rightarrow>
               (Inr [(''processed'', Bool False),
                     (''error'', Str (js ''Error al procesar video''))], h')))"

definition processSticker :: "service \<Rightarrow> fs \<Rightarrow> jsstring \<Rightarrow> request list \<Rightarrow> (exn + obj) \<times> request list" where
  "processSticker this files stickerPath h =
     (case readFileSync files stickerPath of
        Inl e \<Rightarrow> (Inl e, h)
      | Inr d \<Rightarrow>
          (let contents = [InlineData (js ''image/jpeg'') d, Text sticker_instruction] in
           case generateContent (this_ai this)
                  \<lparr>model = this_model this, contents = contents,
                   config = \<lparr>maxOutputTokens = 2048, temperature = binary64 1,
                             systemInstruction = None\<rparr>\<rparr> h of
             (Inr response, h') \<Rightarrow> (Inr [(''content'', of_text (response_text response))], h')
           | (Inl _, h') \<Rightarrow>
               (Inr [(''processed'', Bool False),
                     (''error'', Str (js ''Error al procesar sticker''))], h')))"

definition processDocument :: "service \<Rightarrow> fs \<Rightarrow> jsstring \<Rightarrow> request list \<Rightarrow> (exn + obj) \<times> request list" where
  "processDocument this files documentPath h =
     (case readFileSync files documentPath of
        Inl e \<Rightarrow> (Inl e, h)
      | Inr d \<Rightarrow>
          (let contents = [Text document_instruction, InlineData (js ''application/pdf'') d] in
           case generateContent (this_ai this)
                  \<lparr>model = this_model this, contents = contents,
                   config = \<lparr>maxOutputTokens = 2048, temperature = binary64 (45 / 100),
                             systemInstruction = None\<rparr>\<rparr> h of
             (Inr response, h') \<Rightarrow> (Inr [(''content'', of_text (response_text response))], h')
           | (Inl _, h') \<Rightarrow>
               (Inr [(''processed'', Bool False),
                     (''error'', Str (js ''Error al procesar documento''))], h')))"

subsection \<open>Final synthesis\<close>

datatype kind = Image | Audio | Video | Sticker | Document

text \<open>The property names of \<^verbatim>\<open>mediaTypes\<close>, which become the keys of \<^verbatim>\<open>status.results\<close>.\<close>

fun type_name :: "kind \<Rightarrow> jsstring" where
  "type_name Image = js ''image''"
| "type_name Audio = js ''audio''"
| "type_name Video = js ''video''"
| "type_name Sticker = js ''sticker''"
| "type_name Document = js ''document''"

text \<open>
  \<^verbatim>\<open>status\<close>: \<^verbatim>\<open>results\<close> is an object keyed by kind name, kept as the list of its
  entries in insertion order (the order \<^verbatim>\<open>Object.entries\<close> gives).
\<close>

record status =
  results :: "(kind \<times> obj list) list"
  messages :: "jsstring list"

definition preamble :: jsstring where
  "preamble = js ''This is the user's text messages and the provided transcriptions of the audio, video, images, stickers, or documents in text format. Respond directly and concisely, continuing the conversation by addressing the user's query or topic based on the transcriptions. Stay relevant, avoid misinterpretations, and do not add unrelated information.''"

definition system_instruction :: jsstring where
  "system_instruction = js ''You are a conversational assistant. Receive the user's messages in text/plain format and any provided transcriptions or descriptions of audio, video, images, stickers, or documents in text format. If available, consider the conversation history to maintain context. Understand the context and intent of the user's messages. Respond concisely and directly, continuing the conversation by addressing the user's query or topic based on the provided content. Stay relevant, accurate, and focused on the objective information or emotional intent conveyed in the transcriptions. Avoid misinterpretations, assumptions, or unrelated information.''"

text \<open>The callback of \<^verbatim>\<open>items.map((item, i) => ...)\<close> for the entry \<^verbatim>\<open>[type, items]\<close>.\<close>

definition mediaPart :: "kind \<Rightarrow> obj \<Rightarrow> nat \<Rightarrow> jsstring" where
  "mediaPart type item i =
     (if truthy (get item ''content'')
      then js ''\<newline>\<newline>'' @ capitalize (type_name type) @ js '' '' @ decimal (i + 1) @ js '' '' @
           (if type = Audio then js ''transcription''
            else if type = Document then js ''summary'' else js ''description'') @
           js '': '' @ toString (get item ''content'')
      else [])"

definition contextParts :: "status \<Rightarrow> jsstring \<Rightarrow> jsstring" where
  "contextParts st contextPrompt =
     join []
       (filter (\<lambda>s. s \<noteq> [])
          ([preamble,
            if contextPrompt \<noteq> []
            then js ''\<newline>\<newline>Conversation history:\<newline>'' @ contextPrompt else [],
            if length (messages st) > 0
            then js ''\<newline>\<newline>User's messages:\<newline>'' @
                 join (js ''\<newline>'')
                   (mapi (\<lambda>msg i. decimal (i + 1) @ js ''. '' @ msg) (messages st))
            else []] @
           concat (map (\<lambda>(type, items). mapi (mediaPart type) items) (results st))))"

definition maxAttempts :: nat where
  "maxAttempts = 5"

text \<open>\<^verbatim>\<open>!response.text || response.text.trim() === ''\<close>\<close>

definition emptyText :: "jsstring option \<Rightarrow> bool" where
  "emptyText t = (case t of None \<Rightarrow> True | Some s \<Rightarrow> s = [] \<or> trim s = [])"

text \<open>
  The argument of \<^verbatim>\<open>generateContent\<close> in the retry loop. Its temperature is
  \<^verbatim>\<open>0.9 + (attempts * 0.01)\<close>: the product is rounded, then the sum.
\<close>

definition final_request :: "service \<Rightarrow> jsstring \<Rightarrow> nat \<Rightarrow> request" where
  "final_request this prompt attempts =
     \<lparr>model = this_model this, contents = [Text prompt],
      config = \<lparr>maxOutputTokens = 2048,
                temperature =
                  binary64 (binary64 (9 / 10) + binary64 (of_nat attempts * binary64 (1 / 100))),
                systemInstruction = Some system_instruction\<rparr>\<rparr>"

text \<open>
  The \<^verbatim>\<open>do ... while\<close> loop, from the value of \<^verbatim>\<open>attempts\<close> on entry to the body.
  A throw of the remote call leaves the loop at once.
\<close>

function do_while :: "service \<Rightarrow> jsstring \<Rightarrow> nat \<Rightarrow> request list \<Rightarrow> (exn + response) \<times> request list" where
  "do_while this prompt attempts h =
     (case generateContent (this_ai this) (final_request this prompt attempts) h of
        (Inl error, h') \<Rightarrow> (Inl error, h')
      | (Inr response, h') \<Rightarrow>
          (if emptyText (response_text response) \<and> attempts + 1 < maxAttempts
           then do_while this prompt (attempts + 1) h'
           else (Inr response, h')))"
  by pat_completeness auto
termination
  by (relation "measure (\<lambda>(this, prompt, attempts, h). maxAttempts - attempts)") auto

declare do_while.simps [simp del]

text \<open>
  In the \<^verbatim>\<open>catch\<close> block, \<^verbatim>\<open>error.message\<close> is read from the thrown value. When
  that value is \<^verbatim>\<open>undefined\<close> or \<^verbatim>\<open>null\<close> the read itself throws a TypeError, with
  the message Node gives it, and the promise is rejected.
\<close>

definition generateFinalResponse :: "service \<Rightarrow> status \<Rightarrow> jsstring option \<Rightarrow> request list \<Rightarrow> (exn + obj) \<times> request list" where
  "generateFinalResponse this st ctx h =
     (let contextPrompt = (case ctx of None \<Rightarrow> [] | Some c \<Rightarrow> c);
          prompt = contextParts st contextPrompt
      in case do_while this prompt 0 h of
           (Inr response, h') \<Rightarrow>
             (if emptyText (response_text response)
              then (Inr [(''status'', Str (js ''error'')),
                         (''message'', Str (js (''No se pudo generar una respuesta despu'' @ [CHR 0xE9] @ ''s de varios intentos''))),
                         (''processed'', Bool True),
                         (''error'', Str (js (''Respuesta vac'' @ [CHR 0xED] @ ''a despu'' @ [CHR 0xE9] @ ''s de m'' @ [CHR 0xFA] @ ''ltiples intentos'')))], h')
              else (Inr [(''status'', Str (js ''success'')),
                         (''response'', of_text (response_text response)),
                         (''results'', Obj [(''text'', Obj [(''content'', of_text (response_text response))])])], h'))
         | (Inl error, h') \<Rightarrow>
             (case error of
                Thrown_undefined \<Rightarrow>
                  (Inl (Exn (Some (js ''Cannot read properties of undefined (reading 'message')''))), h')
              | Thrown_null \<Rightarrow>
                  (Inl (Exn (Some (js ''Cannot read properties of null (reading 'message')''))), h')
              | Exn message \<Rightarrow>
                  (Inr [(''status'', Str (js ''error'')),
                        (''message'', Str (js ''Error al generar respuesta final'')),
                        (''processed'', Bool True),
                        (''error'', if truthy (of_text message) then of_text message
                                    else Str (js ''Error al generar respuesta final''))], h')))"

subsection \<open>Fan-out and aggregation\<close>

record message_args =
  texts :: "jsstring list"
  images :: "jsstring list"
  audios :: "jsstring list"
  videos :: "jsstring list"
  stickers :: "jsstring list"
  documents :: "jsstring list"
  contextPrompt :: "jsstring option"

text \<open>\<^verbatim>\<open>this[`process${type.charAt(0).toUpperCase() + type.slice(1)}`]\<close>\<close>

fun process :: "kind \<Rightarrow> service \<Rightarrow> fs \<Rightarrow> jsstring \<Rightarrow> request list \<Rightarrow> (exn + obj) \<times> request list" where
  "process Image = processImage"
| "process Audio = processAudio"
| "process Video = processVideo"
| "process Sticker = processSticker"
| "process Document = processDocument"

text \<open>
  The \<^verbatim>\<open>flatMap\<close>/\<^verbatim>\<open>map\<close> that creates the promises. Each processor runs, in the order
  of the array, up to its first \<^verbatim>\<open>await\<close>: it reads the file and sends its request.
  A processor whose read throws gives a rejected promise and the \<^verbatim>\<open>map\<close> goes on.
\<close>

fun start_all :: "service \<Rightarrow> fs \<Rightarrow> (kind \<times> jsstring) list \<Rightarrow> request list \<Rightarrow> (exn + kind \<times> obj) list \<times> request list" where
  "start_all this files [] h = ([], h)"
| "start_all this files ((type, path) # units) h =
     (case process type this files path h of
        (r, h') \<Rightarrow>
          (case start_all this files units h' of
             (rs, h'') \<Rightarrow>
               ((case r of Inl e \<Rightarrow> Inl e | Inr result \<Rightarrow> Inr (type, result)) # rs, h'')))"

text \<open>
  \<^verbatim>\<open>await Promise.all(promises)\<close>: the values in the order of the array, or the
  rejection of the first promise of the array that is rejected.
\<close>

fun Promise_all :: "(exn + 'a) list \<Rightarrow> exn + 'a list" where
  "Promise_all [] = Inr []"
| "Promise_all (Inl e # ps) = Inl e"
| "Promise_all (Inr x # ps) = (case Promise_all ps of Inl e \<Rightarrow> Inl e | Inr xs \<Rightarrow> Inr (x # xs))"

text \<open>The body of \<^verbatim>\<open>results.forEach\<close>.\<close>

definition push_result :: "(kind \<times> obj list) list \<Rightarrow> kind \<times> obj \<Rightarrow> (kind \<times> obj list) list" where
  "push_result rs tr =
     (case tr of (type, result) \<Rightarrow>
        (let rs' = (if map_of rs type = None then rs @ [(type, [])] else rs)
         in map (\<lambda>(k, items). if k = type then (k, items @ [result]) else (k, items)) rs'))"

text \<open>Lines 12 to 25 of \<^verbatim>\<open>processMessage\<close>: the status handed to the synthesis.\<close>

definition aggregate :: "service \<Rightarrow> fs \<Rightarrow> message_args \<Rightarrow> request list \<Rightarrow> (exn + status) \<times> request list" where
  "aggregate this files args h =
     (let mediaTypes = [(Image, images args), (Audio, audios args), (Video, videos args),
                        (Sticker, stickers args), (Document, documents args)]
      in case start_all this files
                (concat (map (\<lambda>(type, paths). map (\<lambda>path. (type, path)) paths) mediaTypes)) h of
           (promises, h') \<Rightarrow>
             (case Promise_all promises of
                Inl e \<Rightarrow> (Inl e, h')
              | Inr rs \<Rightarrow> (Inr \<lparr>results = foldl push_result [] rs, messages = texts args\<rparr>, h')))"

definition processMessage :: "service \<Rightarrow> fs \<Rightarrow> message_args \<Rightarrow> request list \<Rightarrow> (exn + obj) \<times> request list" where
  "processMessage this files args h =
     (case aggregate this files args h of
        (Inl e, h') \<Rightarrow> (Inl e, h')
      | (Inr st, h') \<Rightarrow> generateFinalResponse this st (contextPrompt args) h')"

section \<open>Vocabulary of the properties\<close>

subsection \<open>Requests and results of the synthesis\<close>

text \<open>
  The requests of the retry loop for the attempts \<open>a, a + 1, \<dots>, a + k - 1\<close>, in the
  order they are sent.
\<close>

definition sent :: "service \<Rightarrow> jsstring \<Rightarrow> nat \<Rightarrow> nat \<Rightarrow> request list" where
  "sent this prompt a k = map (final_request this prompt) [a..<a + k]"

text \<open>The prompt \<^verbatim>\<open>generateFinalResponse\<close> composes, with the default of \<^verbatim>\<open>contextPrompt\<close>.\<close>

definition prompt_of :: "status \<Rightarrow> jsstring option \<Rightarrow> jsstring" where
  "prompt_of st ctx = contextParts st (case ctx of None \<Rightarrow> [] | Some c \<Rightarrow> c)"

text \<open>
  The temperatures of the five attempts, as the doubles that JavaScript writes 0.9, 0.91,
  0.92, 0.93 and 0.9400000000000001.
\<close>

definition attempt_temperatures :: "rat list" where
  "attempt_temperatures =
     [binary64 (9 / 10), binary64 (91 / 100), binary64 (92 / 100), binary64 (93 / 100),
      binary64 (9400000000000001 / 10000000000000000)]"

text \<open>The three results of \<^verbatim>\<open>generateFinalResponse\<close>.\<close>

definition empty_error_result :: obj where
  "empty_error_result =
     [(''status'', Str (js ''error'')),
      (''message'', Str (js (''No se pudo generar una respuesta despu'' @ [CHR 0xE9] @ ''s de varios intentos''))),
      (''processed'', Bool True),
      (''error'', Str (js (''Respuesta vac'' @ [CHR 0xED] @ ''a despu'' @ [CHR 0xE9] @ ''s de m'' @ [CHR 0xFA] @ ''ltiples intentos'')))]"

definition success_result :: "jsstring \<Rightarrow> obj" where
  "success_result t =
     [(''status'', Str (js ''success'')), (''response'', Str t),
      (''results'', Obj [(''text'', Obj [(''content'', Str t)])])]"

definition thrown_error_result :: "jsstring \<Rightarrow> obj" where
  "thrown_error_result m =
     [(''status'', Str (js ''error'')),
      (''message'', Str (js ''Error al generar respuesta final'')),
      (''processed'', Bool True),
      (''error'', Str m)]"

subsection \<open>Requests and results of the processors\<close>

text \<open>The fixed error text of each processor.\<close>

fun error_message :: "kind \<Rightarrow> jsstring" where
  "error_message Image = js ''Error al procesar imagen''"
| "error_message Audio = js ''Error al procesar audio''"
| "error_message Video = js ''Error al procesar video''"
| "error_message Sticker = js ''Error al procesar sticker''"
| "error_message Document = js ''Error al procesar documento''"

text \<open>The request each processor sends for the base64 text \<open>d\<close> of its file.\<close>

fun media_request :: "kind \<Rightarrow> service \<Rightarrow> jsstring \<Rightarrow> request" where
  "media_request Image this d =
     \<lparr>model = this_model this,
      contents = [InlineData (js ''image/jpeg'') d, Text image_instruction],
      config = \<lparr>maxOutputTokens = 2048, temperature = binary64 (85 / 100),
                systemInstruction = None\<rparr>\<rparr>"
| "media_request Audio this d =
     \<lparr>model = this_model this,
      contents = [Text audio_instruction, InlineData (js ''audio/mp3'') d],
      config = \<lparr>maxOutputTokens = 2048, temperature = binary64 (85 / 100),
                systemInstruction = None\<rparr>\<rparr>"
| "media_request Video this d =
     \<lparr>model = this_model this,
      contents = [InlineData (js ''video/mp4'') d, Text video_instruction],
      config = \<lparr>maxOutputTokens = 2048, temperature = binary64 (85 / 100),
                systemInstruction = None\<rparr>\<rparr>"
| "media_request Sticker this d =
     \<lparr>model = this_model this,
      contents = [InlineData (js ''image/jpeg'') d, Text sticker_instruction],
      config = \<lparr>maxOutputTokens = 2048, temperature = binary64 1,
                systemInstruction = None\<rparr>\<rparr>"
| "media_request Document this d =
     \<lparr>model = this_model this,
      contents = [Text document_instruction, InlineData (js ''application/pdf'') d],
      config = \<lparr>maxOutputTokens = 2048, temperature = binary64 (45 / 100),
                systemInstruction = None\<rparr>\<rparr>"

text \<open>The two shapes of a processing result, and the success shape with a string.\<close>

fun content_shape :: "obj \<Rightarrow> bool" where
  "content_shape [(k, Undefined)] = (k = ''content'')"
| "content_shape [(k, Str t)] = (k = ''content'')"
| "content_shape ob = False"

fun string_content_shape :: "obj \<Rightarrow> bool" where
  "string_content_shape [(k, Str t)] = (k = ''content'')"
| "string_content_shape ob = False"

fun failure_shape :: "obj \<Rightarrow> bool" where
  "failure_shape [(k1, Bool b), (k2, Str e)] = (k1 = ''processed'' \<and> b = False \<and> k2 = ''error'')"
| "failure_shape ob = False"

text \<open>An item of the shape a processor returns.\<close>

definition processing_result :: "obj \<Rightarrow> bool" where
  "processing_result item = (content_shape item \<or> failure_shape item)"

subsection \<open>Aggregation\<close>

text \<open>The paths the caller supplied for a kind.\<close>

fun paths_of :: "message_args \<Rightarrow> kind \<Rightarrow> jsstring list" where
  "paths_of args Image = images args"
| "paths_of args Audio = audios args"
| "paths_of args Video = videos args"
| "paths_of args Sticker = stickers args"
| "paths_of args Document = documents args"

text \<open>The results pushed for a kind, in the order of the array.\<close>

definition items_of :: "(kind \<times> obj) list \<Rightarrow> kind \<Rightarrow> obj list" where
  "items_of rs type = map snd (filter (\<lambda>tr. fst tr = type) rs)"

subsection \<open>Blocks of the prompt\<close>



text \<open>\<open>{Kind}\<close> and \<open>{label}\<close> of a labeled block.\<close>

fun kind_title :: "kind \<Rightarrow> jsstring" where
  "kind_title Image = js ''Image''"
| "kind_title Audio = js ''Audio''"
| "kind_title Video = js ''Video''"
| "kind_title Sticker = js ''Sticker''"
| "kind_title Document = js ''Document''"

fun label :: "kind \<Rightarrow> jsstring" where
  "label Audio = js ''transcription''"
| "label Document = js ''summary''"
| "label type = js ''description''"

text \<open>
  The labeled block \<open>{Kind} {index+1} {label}: {content}\<close>, after the two line
  feeds that separate it from what precedes.
\<close>

definition labeled_block :: "kind \<Rightarrow> nat \<Rightarrow> jsstring \<Rightarrow> jsstring" where
  "labeled_block type index content =
     js ''\<newline>\<newline>'' @ kind_title type @ js '' '' @ decimal (index + 1) @ js '' '' @ label type @
     js '': '' @ content"

text \<open>
  What one aggregated item contributes: one labeled block when its content is a
  non-empty string, nothing otherwise.
\<close>

definition item_blocks :: "kind \<Rightarrow> nat \<Rightarrow> obj \<Rightarrow> jsstring list" where
  "item_blocks type index item =
     (case get item ''content'' of
        Str c \<Rightarrow> if c = [] then [] else [labeled_block type index c]
      | _ \<Rightarrow> [])"

text \<open>The blocks of all items: kind by kind, and item by item within a kind.\<close>

definition media_blocks :: "(kind \<times> obj list) list \<Rightarrow> jsstring list" where
  "media_blocks rs =
     concat (map (\<lambda>(type, items).
        concat (map (\<lambda>(index, item). item_blocks type index item) (enumerate 0 items))) rs)"

subsection \<open>Examples\<close>

text \<open>
  A scripted remote answers its \<open>n\<close>-th call with the \<open>n\<close>-th outcome of the script,
  whatever the request, and throws once the script is used up.
\<close>

definition scripted :: "(exn + response) list \<Rightarrow> remote" where
  "scripted outs h req = (if length h < length outs then outs ! length h else Inl (Exn None))"

definition service_of :: "remote \<Rightarrow> service" where
  "service_of ai = \<lparr>this_ai = ai, this_model = js ''gemini-2.5-flash-preview-04-17''\<rparr>"

text \<open>A client whose first call returns a text.\<close>

definition example_client :: "jsval \<Rightarrow> remote" where
  "example_client apiKey = scripted [Inr (Response (Some (js ''Hola'')))]"

text \<open>Scripts for the examples.\<close>

definition four_blank_then_hola :: "(exn + response) list" where
  "four_blank_then_hola =
     [Inr (Response (Some [])), Inr (Response None), Inr (Response (Some (js '' ''))),
      Inr (Response (Some [])), Inr (Response (Some (js ''Hola'')))]"

definition five_blank :: "(exn + response) list" where
  "five_blank =
     [Inr (Response (Some [])), Inr (Response None), Inr (Response (Some (js '' ''))),
      Inr (Response (Some [])), Inr (Response (Some (js ''  '')))]"

definition two_blank_then_throw :: "(exn + response) list" where
  "two_blank_then_throw =
     [Inr (Response None), Inr (Response (Some (js '' ''))), Inl (Exn (Some (js ''quota'')))]"

definition two_blank_then_hola :: "(exn + response) list" where
  "two_blank_then_hola =
     [Inr (Response None), Inr (Response (Some (js '' ''))), Inr (Response (Some (js ''Hola'')))]"

definition throw_without_message :: "(exn + response) list" where
  "throw_without_message = [Inl (Exn (Some []))]"

text \<open>A file system where every read succeeds, and one where every read throws.\<close>

definition readable :: "fs" where
  "readable path = Inr (js ''QUJD'')"

definition unreadable :: "fs" where
  "unreadable path = Inl (Exn (Some (js ''ENOENT: no such file or directory'')))"

text \<open>Arguments of \<^verbatim>\<open>processMessage\<close> for the examples.\<close>

definition two_images_one_document :: message_args where
  "two_images_one_document =
     \<lparr>texts = [js ''hola''], images = [js ''a.jpg'', js ''b.jpg''], audios = [], videos = [],
      stickers = [], documents = [js ''c.pdf''], contextPrompt = None\<rparr>"

definition one_unreadable_image :: message_args where
  "one_unreadable_image =
     \<lparr>texts = [js ''hola''], images = [js ''missing.jpg''], audios = [], videos = [],
      stickers = [], documents = [], contextPrompt = None\<rparr>"

text \<open>A status for the examples: a failed image, then a described one, and three audios.\<close>

definition cat_and_greeting :: status where
  "cat_and_greeting =
     \<lparr>results =
        [(Image, [[(''processed'', Bool False), (''error'', Str (js ''Error al procesar imagen''))],
                  [(''content'', Str (js ''un gato''))]]),
         (Audio, [[(''content'', Str (js ''hola''))], [(''content'', Str [])],
                  [(''content'', Undefined)]])],
      messages = []\<rparr>"

section \<open>Properties\<close>

subsection \<open>Numbers\<close>

lemma pow2_Suc: "pow2 (k + 1) = 2 * pow2 k"
proof (cases "0 \<le> k")
  case True
  then show ?thesis by (simp add: pow2_def nat_add_distrib)
next
  case False
  then have "nat (- k) = Suc (nat (- (k + 1)))" by simp
  with False show ?thesis by (auto simp: pow2_def)
qed

lemma pow2_pos: "0 < pow2 k"
  by (simp add: pow2_def)

lemma exponent_bounds:
  "0 < x \<Longrightarrow> pow2 (exponent x) \<le> x \<and> x < pow2 (exponent x + 1)"
proof (induction x rule: exponent.induct)
  case (1 x)
  show ?case
  proof (cases "x < 1")
    case True
    with "1.prems" have e: "exponent x = exponent (2 * x) - 1" by (subst exponent.simps) simp
    from "1.IH"(1) True "1.prems"
    have ih: "pow2 (exponent (2 * x)) \<le> 2 * x \<and> 2 * x < pow2 (exponent (2 * x) + 1)" by simp
    have "pow2 (exponent (2 * x)) = 2 * pow2 (exponent (2 * x) - 1)"
      using pow2_Suc[of "exponent (2 * x) - 1"] by simp
    moreover have "pow2 (exponent (2 * x) + 1) = 2 * pow2 (exponent (2 * x))"
      by (rule pow2_Suc)
    ultimately show ?thesis using ih e by simp
  next
    case False
    show ?thesis
    proof (cases "2 \<le> x")
      case True
      with False "1.prems" have e: "exponent x = exponent (x / 2) + 1" by (subst exponent.simps) simp
      from "1.IH"(2) True False "1.prems"
      have ih: "pow2 (exponent (x / 2)) \<le> x / 2 \<and> x / 2 < pow2 (exponent (x / 2) + 1)" by simp
      have "pow2 (exponent (x / 2) + 1 + 1) = 2 * pow2 (exponent (x / 2) + 1)"
        by (rule pow2_Suc)
      moreover have "pow2 (exponent (x / 2) + 1) = 2 * pow2 (exponent (x / 2))"
        by (rule pow2_Suc)
      ultimately show ?thesis using ih e by simp
    next
      case F2: False
      with False "1.prems" have "exponent x = 0" by (subst exponent.simps) simp
      with False F2 show ?thesis by (simp add: pow2_def)
    qed
  qed
qed

lemma round_ties_even_nearest: "\<bar>x - of_int (round_ties_even x)\<bar> \<le> 1 / 2"
proof -
  have "of_int \<lfloor>x\<rfloor> \<le> x" "x < of_int \<lfloor>x\<rfloor> + 1" by linarith+
  then show ?thesis by (auto simp: round_ties_even_def Let_def)
qed

subsection \<open>Strings and lists\<close>

lemma js_Nil_iff [simp]: "js s = [] \<longleftrightarrow> s = []"
  by (simp add: js_def)

lemma join_Nil_concat: "join [] xs = concat xs"
  by (induction "[] :: jsstring" xs rule: join.induct) simp_all

lemma concat_filter_nonempty: "concat (filter (\<lambda>s. s \<noteq> []) xs) = concat xs"
  by (induction xs) simp_all

lemma concat_concat_map: "concat (concat (map g xs)) = concat (map (\<lambda>x. concat (g x)) xs)"
  by (induction xs) simp_all


lemma decimal_digits: "decimal 1 = js ''1''" "decimal 2 = js ''2''" "decimal 3 = js ''3''"
  by (simp_all add: decimal.simps js_def)

lemma emptyText_examples:
  "emptyText (Some [])" "emptyText None" "emptyText (Some (js '' ''))" "emptyText (Some (js ''  ''))"
  "\<not> emptyText (Some (js ''Hola''))"
  by (simp_all add: emptyText_def trim_def isWhiteSpace_def js_def)

lemma less_2_cases: "k < 2 \<Longrightarrow> k = 0 \<or> k = (1::nat)"
  by arith

lemma less_4_cases: "k < 4 \<Longrightarrow> k = 0 \<or> k = 1 \<or> k = 2 \<or> k = (3::nat)"
  by arith

subsection \<open>The constructor\<close>

lemma new_GeminiService_raises_iff:
  "(\<exists>e. new_GeminiService GoogleGenAI (of_text apiKey) = Inl e) \<longleftrightarrow> apiKey = None \<or> apiKey = Some []"
  by (cases apiKey) (simp_all add: new_GeminiService_def of_text_def)

lemma new_GeminiService_constructs:
  "apiKey \<noteq> [] \<Longrightarrow>
   new_GeminiService GoogleGenAI (Str apiKey) =
     Inr \<lparr>this_ai = GoogleGenAI (Str apiKey), this_model = js ''gemini-2.5-flash-preview-04-17''\<rparr>"
  by (simp add: new_GeminiService_def)

subsection \<open>The media processors\<close>

lemma process_unfold:
  "readFileSync files path = Inr d \<Longrightarrow>
   process type this files path h =
     (case this_ai this h (media_request type this d) of
        Inr response \<Rightarrow> Inr [(''content'', of_text (response_text response))]
      | Inl e \<Rightarrow> Inr [(''processed'', Bool False), (''error'', Str (error_message type))],
      h @ [media_request type this d])"
  by (cases type; cases "this_ai this h (media_request type this d)")
     (simp_all add: processImage_def processAudio_def processVideo_def processSticker_def
        processDocument_def generateContent_def)

lemma process_unreadable:
  "readFileSync files path = Inl e \<Longrightarrow> process type this files path h = (Inl e, h)"
  by (cases type)
     (simp_all add: processImage_def processAudio_def processVideo_def processSticker_def
        processDocument_def)

lemma process_fulfilled_iff_readable:
  "(\<exists>r. fst (process type this files path h) = Inr r) \<longleftrightarrow> (\<exists>d. readFileSync files path = Inr d)"
proof (cases "readFileSync files path")
  case (Inl e)
  then show ?thesis by (simp add: process_unreadable)
next
  case (Inr d)
  then show ?thesis
    by (cases "this_ai this h (media_request type this d)") (simp_all add: process_unfold)
qed

text \<open>
  Claim C6. Once its file is read, each of the five processors sends exactly one request
  to the remote model, with exactly two parts in the order of its kind (image, video and
  sticker: the media part, then the instruction; audio and document: the instruction,
  then the media part), a token cap of 2048 and its temperature: 0.85 for image, audio
  and video, 1 for sticker, 0.45 for document.
\<close>

theorem processors_requests:
  assumes "readFileSync files path = Inr d"
  shows "snd (processImage this files path h) = h @
           [\<lparr>model = this_model this,
             contents = [InlineData (js ''image/jpeg'') d, Text image_instruction],
             config = \<lparr>maxOutputTokens = 2048, temperature = binary64 (85 / 100),
                        systemInstruction = None\<rparr>\<rparr>]
       \<and> snd (processAudio this files path h) = h @
           [\<lparr>model = this_model this,
             contents = [Text audio_instruction, InlineData (js ''audio/mp3'') d],
             config = \<lparr>maxOutputTokens = 2048, temperature = binary64 (85 / 100),
                        systemInstruction = None\<rparr>\<rparr>]
       \<and> snd (processVideo this files path h) = h @
           [\<lparr>model = this_model this,
             contents = [InlineData (js ''video/mp4'') d, Text video_instruction],
             config = \<lparr>maxOutputTokens = 2048, temperature = binary64 (85 / 100),
                        systemInstruction = None\<rparr>\<rparr>]
       \<and> snd (processSticker this files path h) = h @
           [\<lparr>model = this_model this,
             contents = [InlineData (js ''image/jpeg'') d, Text sticker_instruction],
             config = \<lparr>maxOutputTokens = 2048, temperature = binary64 1,
                        systemInstruction = None\<rparr>\<rparr>]
       \<and> snd (processDocument this files path h) = h @
           [\<lparr>model = this_model this,
             contents = [Text document_instruction, InlineData (js ''application/pdf'') d],
             config = \<lparr>maxOutputTokens = 2048, temperature = binary64 (45 / 100),
                        systemInstruction = None\<rparr>\<rparr>]"
  using process_unfold[OF assms, of Image this h] process_unfold[OF assms, of Audio this h]
    process_unfold[OF assms, of Video this h] process_unfold[OF assms, of Sticker this h]
    process_unfold[OF assms, of Document this h]
  by simp

theorem processors_requests_witness:
  "snd (processImage (service_of (scripted [])) readable (js ''a.jpg'') []) =
     [\<lparr>model = js ''gemini-2.5-flash-preview-04-17'',
       contents = [InlineData (js ''image/jpeg'') (js ''QUJD''), Text image_instruction],
       config = \<lparr>maxOutputTokens = 2048, temperature = binary64 (85 / 100),
                        systemInstruction = None\<rparr>\<rparr>]
   \<and> snd (processDocument (service_of (scripted [])) readable (js ''a.jpg'') []) =
     [\<lparr>model = js ''gemini-2.5-flash-preview-04-17'',
       contents = [Text document_instruction, InlineData (js ''application/pdf'') (js ''QUJD'')],
       config = \<lparr>maxOutputTokens = 2048, temperature = binary64 (45 / 100),
                        systemInstruction = None\<rparr>\<rparr>]"
proof -
  have r: "readFileSync readable (js ''a.jpg'') = Inr (js ''QUJD'')"
    by (simp add: readable_def readFileSync_def)
  show ?thesis
    using processors_requests [OF r, of "service_of (scripted [])" "[]"]
    by (simp add: service_of_def)
qed

text \<open>
  Claim C8, as amended. For every kind, when the file is read the processor's promise
  is fulfilled with a result of exactly one of two shapes, which exclude each other:
  \<open>{content: t}\<close> when the remote call returns, where \<open>t\<close> is the text of the
  response, a string or \<^verbatim>\<open>undefined\<close> when the response carries no text; and
  \<open>{processed: false, error: m}\<close> with the fixed message \<open>m\<close> of the kind when the
  remote call throws.
\<close>

theorem process_result_shape:
  assumes "readFileSync files path = Inr d"
  shows "\<exists>r. fst (process type this files path h) = Inr r
           \<and> (case this_ai this h (media_request type this d) of
                 Inr response \<Rightarrow>
                   r = [(''content'', of_text (response_text response))]
                   \<and> content_shape r \<and> \<not> failure_shape r
               | Inl e \<Rightarrow>
                   r = [(''processed'', Bool False), (''error'', Str (error_message type))]
                   \<and> failure_shape r \<and> \<not> content_shape r)"
proof (cases "this_ai this h (media_request type this d)")
  case (Inl e)
  then show ?thesis by (simp add: process_unfold[OF assms])
next
  case (Inr response)
  then show ?thesis
    by (cases "response_text response") (simp_all add: process_unfold[OF assms] of_text_def)
qed

theorem process_result_shape_witness:
  "fst (process Audio (service_of (scripted [Inr (Response (Some (js ''hola'')))])) readable (js ''a.mp3'') [])
     = Inr [(''content'', Str (js ''hola''))]
   \<and> fst (process Audio (service_of (scripted [Inl (Exn None)])) readable (js ''a.mp3'') [])
     = Inr [(''processed'', Bool False), (''error'', Str (js ''Error al procesar audio''))]"
proof -
  have r: "readFileSync readable (js ''a.mp3'') = Inr (js ''QUJD'')"
    by (simp add: readable_def readFileSync_def)
  show ?thesis
    using process_result_shape [OF r, of Audio "service_of (scripted [Inr (Response (Some (js ''hola'')))])" "[]"]
      process_result_shape [OF r, of Audio "service_of (scripted [Inl (Exn None)])" "[]"]
    by (simp add: service_of_def scripted_def of_text_def)
qed

text \<open>
  The claim as written fails when the response carries no text: the result is
  \<open>{content: undefined}\<close>, a success result without a string content, and not the
  failure shape either.
\<close>

theorem process_result_shape_counterexample:
  "fst (processImage (service_of (scripted [Inr (Response None)])) readable (js ''a.jpg'') [])
     = Inr [(''content'', Undefined)]
   \<and> \<not> string_content_shape [(''content'', Undefined)]
   \<and> \<not> failure_shape [(''content'', Undefined)]"
  using process_unfold[of readable "js ''a.jpg''" "js ''QUJD''" Image
          "service_of (scripted [Inr (Response None)])" "[]"]
  by (simp add: readable_def readFileSync_def service_of_def scripted_def of_text_def)

subsection \<open>The retry loop\<close>

lemma do_while_throw:
  "this_ai this h (final_request this p a) = Inl e \<Longrightarrow>
   do_while this p a h = (Inl e, h @ [final_request this p a])"
  by (subst do_while.simps) (simp add: generateContent_def)

lemma do_while_stop:
  "this_ai this h (final_request this p a) = Inr r \<Longrightarrow>
   \<not> (emptyText (response_text r) \<and> a + 1 < maxAttempts) \<Longrightarrow>
   do_while this p a h = (Inr r, h @ [final_request this p a])"
  by (subst do_while.simps) (auto simp add: generateContent_def)

lemma do_while_retry:
  "this_ai this h (final_request this p a) = Inr r \<Longrightarrow>
   emptyText (response_text r) \<Longrightarrow> a + 1 < maxAttempts \<Longrightarrow>
   do_while this p a h = do_while this p (a + 1) (h @ [final_request this p a])"
  by (subst do_while.simps) (simp add: generateContent_def)

lemma sent_Suc: "sent this p a (Suc k) = sent this p a k @ [final_request this p (a + k)]"
  by (simp add: sent_def)

lemma length_sent [simp]: "length (sent this p a k) = k"
  by (simp add: sent_def)

lemma do_while_skip:
  "\<forall>j<k. \<exists>r. this_ai this (h @ sent this p a j) (final_request this p (a + j)) = Inr r
       \<and> emptyText (response_text r) \<Longrightarrow>
   a + k < maxAttempts \<Longrightarrow>
   do_while this p a h = do_while this p (a + k) (h @ sent this p a k)"
proof (induction k arbitrary: a h)
  case 0
  then show ?case by (simp add: sent_def)
next
  case (Suc k)
  from Suc.prems(1) have "\<exists>r. this_ai this (h @ sent this p a 0) (final_request this p (a + 0)) = Inr r
       \<and> emptyText (response_text r)" by blast
  then obtain r where r: "this_ai this h (final_request this p a) = Inr r" "emptyText (response_text r)"
    by (auto simp: sent_def)
  have step: "do_while this p a h = do_while this p (a + 1) (h @ [final_request this p a])"
    using r Suc.prems(2) by (intro do_while_retry) auto
  have shift: "\<And>j. h @ sent this p a (Suc j) = (h @ [final_request this p a]) @ sent this p (a + 1) j"
  proof -
    fix j
    have "[a..<a + Suc j] = a # [a + 1..<a + 1 + j]"
      by (simp add: upt_conv_Cons)
    then show "h @ sent this p a (Suc j) = (h @ [final_request this p a]) @ sent this p (a + 1) j"
      unfolding sent_def by simp
  qed
  have "\<forall>j<k. \<exists>r. this_ai this ((h @ [final_request this p a]) @ sent this p (a + 1) j)
          (final_request this p (a + 1 + j)) = Inr r \<and> emptyText (response_text r)"
  proof (intro allI impI)
    fix j assume "j < k"
    then have "Suc j < Suc k" by simp
    with Suc.prems(1) have "\<exists>r. this_ai this (h @ sent this p a (Suc j)) (final_request this p (a + Suc j)) = Inr r
       \<and> emptyText (response_text r)" by blast
    then show "\<exists>r. this_ai this ((h @ [final_request this p a]) @ sent this p (a + 1) j)
          (final_request this p (a + 1 + j)) = Inr r \<and> emptyText (response_text r)"
      by (simp add: shift)
  qed
  moreover have "a + 1 + k < maxAttempts" using Suc.prems(2) by simp
  ultimately have "do_while this p (a + 1) (h @ [final_request this p a])
      = do_while this p (a + 1 + k) ((h @ [final_request this p a]) @ sent this p (a + 1) k)"
    by (rule Suc.IH)
  with step show ?case by (simp add: shift)
qed

lemma do_while_sent:
  "a < maxAttempts \<Longrightarrow>
   \<exists>m. 1 \<le> m \<and> a + m \<le> maxAttempts \<and> snd (do_while this p a h) = h @ sent this p a m"
proof (induction this p a h rule: do_while.induct)
  case (1 this p a h)
  let ?req = "final_request this p a"
  have one: "h @ [?req] = h @ sent this p a 1" by (simp add: sent_def)
  show ?case
  proof (cases "this_ai this h ?req")
    case (Inl e)
    then have "snd (do_while this p a h) = h @ sent this p a 1"
      by (simp add: do_while_throw one)
    with "1.prems" show ?thesis by (intro exI[of _ 1]) simp
  next
    case (Inr r)
    show ?thesis
    proof (cases "emptyText (response_text r) \<and> a + 1 < maxAttempts")
      case False
      with Inr have "snd (do_while this p a h) = h @ sent this p a 1"
        by (simp add: do_while_stop one del: append_assoc)
      with "1.prems" show ?thesis by (intro exI[of _ 1]) simp
    next
      case True
      then have eq: "do_while this p a h = do_while this p (a + 1) (h @ [?req])"
        using do_while_retry[OF Inr] by simp
      have "\<exists>m. 1 \<le> m \<and> a + 1 + m \<le> maxAttempts
               \<and> snd (do_while this p (a + 1) (h @ [?req])) = (h @ [?req]) @ sent this p (a + 1) m"
      proof (rule "1.IH"[of "Inr r" "h @ [?req]" r])
        show "(Inr r, h @ [?req]) = generateContent (this_ai this) ?req h"
          using Inr by (simp add: generateContent_def)
        show "emptyText (response_text r) \<and> a + 1 < maxAttempts" by (rule True)
        show "a + 1 < maxAttempts" using True by simp
      qed simp
      then obtain m where m: "1 \<le> m" "a + 1 + m \<le> maxAttempts"
        "snd (do_while this p (a + 1) (h @ [?req])) = (h @ [?req]) @ sent this p (a + 1) m"
        by blast
      have "[a..<a + Suc m] = a # [a + 1..<a + 1 + m]"
        by (simp add: upt_conv_Cons)
      then have "(h @ [?req]) @ sent this p (a + 1) m = h @ sent this p a (Suc m)"
        unfolding sent_def by simp
      with m eq show ?thesis by (intro exI[of _ "Suc m"]) simp
    qed
  qed
qed

lemma generateFinalResponse_returned:
  "do_while this (prompt_of st ctx) 0 h = (Inr r, h') \<Longrightarrow>
   generateFinalResponse this st ctx h =
     (Inr (case response_text r of
             None \<Rightarrow> empty_error_result
           | Some t \<Rightarrow> if t = [] \<or> trim t = [] then empty_error_result else success_result t), h')"
  by (cases "response_text r")
     (auto simp: generateFinalResponse_def prompt_of_def Let_def empty_error_result_def
        success_result_def of_text_def emptyText_def)

lemma generateFinalResponse_thrown:
  "do_while this (prompt_of st ctx) 0 h = (Inl (Exn message), h') \<Longrightarrow>
   generateFinalResponse this st ctx h =
     (Inr (thrown_error_result
            (case message of None \<Rightarrow> js ''Error al generar respuesta final''
             | Some m \<Rightarrow> if m \<noteq> [] then m else js ''Error al generar respuesta final'')), h')"
  by (cases message)
     (auto simp: generateFinalResponse_def prompt_of_def Let_def thrown_error_result_def of_text_def)

lemma generateFinalResponse_thrown_nullish:
  "do_while this (prompt_of st ctx) 0 h = (Inl Thrown_undefined, h') \<Longrightarrow>
   generateFinalResponse this st ctx h =
     (Inl (Exn (Some (js ''Cannot read properties of undefined (reading 'message')''))), h')"
  "do_while this (prompt_of st ctx) 0 h = (Inl Thrown_null, h') \<Longrightarrow>
   generateFinalResponse this st ctx h =
     (Inl (Exn (Some (js ''Cannot read properties of null (reading 'message')''))), h')"
  by (simp_all add: generateFinalResponse_def prompt_of_def Let_def)

lemma generateFinalResponse_snd:
  "snd (generateFinalResponse this st ctx h) = snd (do_while this (prompt_of st ctx) 0 h)"
proof (cases "do_while this (prompt_of st ctx) 0 h")
  case (Pair x h')
  show ?thesis
  proof (cases x)
    case (Inl e)
    with Pair show ?thesis
      by (cases e)
         (simp_all add: generateFinalResponse_thrown generateFinalResponse_thrown_nullish)
  next
    case (Inr r)
    with Pair show ?thesis by (simp add: generateFinalResponse_returned)
  qed
qed

lemma do_while_thrown_by_remote:
  "fst (do_while this p a h) = Inl e \<Longrightarrow> \<exists>h' req. this_ai this h' req = Inl e"
proof (induction this p a h rule: do_while.induct)
  case (1 this p a h)
  let ?req = "final_request this p a"
  show ?case
  proof (cases "this_ai this h ?req")
    case (Inl e')
    with "1.prems" show ?thesis by (auto simp: do_while_throw)
  next
    case (Inr r)
    show ?thesis
    proof (cases "emptyText (response_text r) \<and> a + 1 < maxAttempts")
      case False
      with Inr "1.prems" show ?thesis by (simp add: do_while_stop)
    next
      case True
      then have "do_while this p a h = do_while this p (a + 1) (h @ [?req])"
        using do_while_retry[OF Inr] by simp
      with "1.prems" have "fst (do_while this p (a + 1) (h @ [?req])) = Inl e" by simp
      moreover have "(Inr r, h @ [?req]) = generateContent (this_ai this) ?req h"
        using Inr by (simp add: generateContent_def)
      ultimately show ?thesis using True by (intro "1.IH"[of "Inr r" "h @ [?req]" r]) simp_all
    qed
  qed
qed

lemma generateFinalResponse_fulfilled:
  assumes "\<forall>h req. this_ai this h req \<noteq> Inl Thrown_undefined \<and> this_ai this h req \<noteq> Inl Thrown_null"
  shows "\<exists>r. fst (generateFinalResponse this st ctx h) = Inr r \<and> get r ''status'' \<noteq> Undefined"
proof (cases "do_while this (prompt_of st ctx) 0 h")
  case (Pair x h')
  show ?thesis
  proof (cases x)
    case (Inl e)
    with Pair have "fst (do_while this (prompt_of st ctx) 0 h) = Inl e" by simp
    then obtain h'' req where "this_ai this h'' req = Inl e"
      using do_while_thrown_by_remote by blast
    with assms obtain message where "e = Exn message" by (cases e) auto
    with Pair Inl show ?thesis
      by (simp add: generateFinalResponse_thrown get_def thrown_error_result_def)
  next
    case (Inr r)
    with Pair show ?thesis
      by (simp add: generateFinalResponse_returned get_def empty_error_result_def
            success_result_def split: option.splits)
  qed
qed

text \<open>
  Claim C2. \<^verbatim>\<open>generateFinalResponse\<close> retries on empty or blank text up to five
  attempts in all. When the first four attempts return a text that is missing, empty or
  blank and the fifth attempt returns, exactly five requests are sent and the promise is
  fulfilled: with the success result carrying the fifth text when that text is not
  empty or blank, and otherwise with the error result whose status is \<open>error\<close> and
  whose message is \<open>No se pudo generar una respuesta despu\<acute>es de varios intentos\<close>.
  Here "empty" is the test of the source, \<^verbatim>\<open>!response.text || response.text.trim() === ''\<close>:
  a fifth text of white space only counts as empty.
\<close>

theorem generateFinalResponse_retry:
  assumes blank4: "\<forall>k<4. \<exists>r. this_ai this (h @ sent this (prompt_of st ctx) 0 k)
                       (final_request this (prompt_of st ctx) k) = Inr r \<and> emptyText (response_text r)"
    and fifth: "this_ai this (h @ sent this (prompt_of st ctx) 0 4)
                       (final_request this (prompt_of st ctx) 4) = Inr r5"
  shows "generateFinalResponse this st ctx h =
           (Inr (case response_text r5 of
                   None \<Rightarrow> empty_error_result
                 | Some t \<Rightarrow>
                     if t = [] \<or> trim t = [] then empty_error_result else success_result t),
            h @ sent this (prompt_of st ctx) 0 5)"
proof -
  let ?p = "prompt_of st ctx"
  have "\<forall>j<4. \<exists>r. this_ai this (h @ sent this ?p 0 j) (final_request this ?p (0 + j)) = Inr r
          \<and> emptyText (response_text r)"
    using blank4 by simp
  moreover have "0 + 4 < maxAttempts" by (simp add: maxAttempts_def)
  ultimately have "do_while this ?p 0 h = do_while this ?p (0 + 4) (h @ sent this ?p 0 4)"
    by (rule do_while_skip)
  moreover have "do_while this ?p 4 (h @ sent this ?p 0 4)
      = (Inr r5, (h @ sent this ?p 0 4) @ [final_request this ?p 4])"
    using fifth by (rule do_while_stop) (simp add: maxAttempts_def)
  ultimately have "do_while this ?p 0 h = (Inr r5, h @ sent this ?p 0 5)"
    using sent_Suc[of this ?p 0 4] by (simp add: eval_nat_numeral)
  then show ?thesis by (rule generateFinalResponse_returned)
qed

theorem generateFinalResponse_retry_witness:
  "generateFinalResponse (service_of (scripted four_blank_then_hola))
      \<lparr>results = [], messages = []\<rparr> None []
    = (Inr (success_result (js ''Hola'')),
       sent (service_of (scripted four_blank_then_hola)) (prompt_of \<lparr>results = [], messages = []\<rparr> None) 0 5)
   \<and> generateFinalResponse (service_of (scripted five_blank))
      \<lparr>results = [], messages = []\<rparr> None []
    = (Inr empty_error_result,
       sent (service_of (scripted five_blank)) (prompt_of \<lparr>results = [], messages = []\<rparr> None) 0 5)"
proof -
  let ?st = "\<lparr>results = [], messages = []\<rparr>"
  let ?p = "prompt_of ?st None"
  let ?A = "service_of (scripted four_blank_then_hola)"
  let ?B = "service_of (scripted five_blank)"
  have a4: "\<forall>k<4. \<exists>r. this_ai ?A ([] @ sent ?A ?p 0 k) (final_request ?A ?p k) = Inr r
              \<and> emptyText (response_text r)"
    by (auto dest!: less_4_cases simp: service_of_def scripted_def four_blank_then_hola_def
          emptyText_examples)
  have a5: "this_ai ?A ([] @ sent ?A ?p 0 4) (final_request ?A ?p 4) = Inr (Response (Some (js ''Hola'')))"
    by (simp add: service_of_def scripted_def four_blank_then_hola_def)
  have b4: "\<forall>k<4. \<exists>r. this_ai ?B ([] @ sent ?B ?p 0 k) (final_request ?B ?p k) = Inr r
              \<and> emptyText (response_text r)"
    by (auto dest!: less_4_cases simp: service_of_def scripted_def five_blank_def
          emptyText_examples)
  have b5: "this_ai ?B ([] @ sent ?B ?p 0 4) (final_request ?B ?p 4) = Inr (Response (Some (js ''  '')))"
    by (simp add: service_of_def scripted_def five_blank_def)
  show ?thesis
    using generateFinalResponse_retry [OF a4 a5] generateFinalResponse_retry [OF b4 b5]
      emptyText_examples(4,5)
    by (simp add: emptyText_def)
qed

text \<open>
  Claim C3, as amended. When the remote call throws a value other than \<^verbatim>\<open>undefined\<close>
  and \<^verbatim>\<open>null\<close> at attempt \<open>k\<close>, after \<open>k\<close> attempts that returned empty or blank
  text, \<^verbatim>\<open>generateFinalResponse\<close> sends no further request and its promise is fulfilled
  with an error result: status \<open>error\<close>, message \<open>Error al generar respuesta final\<close>,
  and an \<open>error\<close> field that is the thrown value's message when that message is a
  non-empty string and the fixed text \<open>Error al generar respuesta final\<close> when the
  thrown value has no message or an empty one. (For a thrown \<^verbatim>\<open>undefined\<close> or
  \<^verbatim>\<open>null\<close> the promise is rejected: \<open>generateFinalResponse_thrown_nullish\<close>.)
\<close>

theorem generateFinalResponse_throw:
  assumes k: "k < 5"
    and blank: "\<forall>j<k. \<exists>r. this_ai this (h @ sent this (prompt_of st ctx) 0 j)
                       (final_request this (prompt_of st ctx) j) = Inr r \<and> emptyText (response_text r)"
    and throw: "this_ai this (h @ sent this (prompt_of st ctx) 0 k)
                       (final_request this (prompt_of st ctx) k) = Inl (Exn message)"
  shows "generateFinalResponse this st ctx h =
           (Inr (thrown_error_result
                  (case message of None \<Rightarrow> js ''Error al generar respuesta final''
                   | Some m \<Rightarrow> if m \<noteq> [] then m else js ''Error al generar respuesta final'')),
            h @ sent this (prompt_of st ctx) 0 (k + 1))"
proof -
  let ?p = "prompt_of st ctx"
  have "\<forall>j<k. \<exists>r. this_ai this (h @ sent this ?p 0 j) (final_request this ?p (0 + j)) = Inr r
          \<and> emptyText (response_text r)"
    using blank by simp
  moreover have "0 + k < maxAttempts" using k by (simp add: maxAttempts_def)
  ultimately have "do_while this ?p 0 h = do_while this ?p (0 + k) (h @ sent this ?p 0 k)"
    by (rule do_while_skip)
  also have "\<dots> = (Inl (Exn message), (h @ sent this ?p 0 k) @ [final_request this ?p k])"
    using throw by (simp add: do_while_throw)
  finally have "do_while this ?p 0 h = (Inl (Exn message), h @ sent this ?p 0 (k + 1))"
    using sent_Suc[of this ?p 0 k] by simp
  then show ?thesis by (rule generateFinalResponse_thrown)
qed

theorem generateFinalResponse_throw_witness:
  "generateFinalResponse (service_of (scripted two_blank_then_throw))
      \<lparr>results = [], messages = []\<rparr> None []
    = (Inr (thrown_error_result (js ''quota'')),
       sent (service_of (scripted two_blank_then_throw))
         (prompt_of \<lparr>results = [], messages = []\<rparr> None) 0 3)"
proof -
  let ?st = "\<lparr>results = [], messages = []\<rparr>"
  let ?p = "prompt_of ?st None"
  let ?A = "service_of (scripted two_blank_then_throw)"
  have k: "(2::nat) < 5" by simp
  have blank: "\<forall>j<2. \<exists>r. this_ai ?A ([] @ sent ?A ?p 0 j) (final_request ?A ?p j) = Inr r
              \<and> emptyText (response_text r)"
    by (auto dest!: less_2_cases simp: service_of_def scripted_def two_blank_then_throw_def
          emptyText_examples)
  have throw: "this_ai ?A ([] @ sent ?A ?p 0 2) (final_request ?A ?p 2) = Inl (Exn (Some (js ''quota'')))"
    by (simp add: service_of_def scripted_def two_blank_then_throw_def)
  show ?thesis
    using generateFinalResponse_throw [OF k blank throw] by simp
qed

text \<open>
  The claim as written fails for a thrown error whose message is the empty string
  (such as \<^verbatim>\<open>new Error()\<close>): the \<open>error\<close> field is then the fixed fallback text
  of \<^verbatim>\<open>error.message || 'Error al generar respuesta final'\<close>, not the thrown message.
\<close>

theorem generateFinalResponse_throw_counterexample:
  "this_ai (service_of (scripted throw_without_message)) []
      (final_request (service_of (scripted throw_without_message))
         (prompt_of \<lparr>results = [], messages = []\<rparr> None) 0) = Inl (Exn (Some []))
   \<and> fst (generateFinalResponse (service_of (scripted throw_without_message))
            \<lparr>results = [], messages = []\<rparr> None [])
       = Inr (thrown_error_result (js ''Error al generar respuesta final''))
   \<and> get (thrown_error_result (js ''Error al generar respuesta final'')) ''error'' \<noteq> Str []"
proof -
  let ?st = "\<lparr>results = [], messages = []\<rparr>"
  let ?p = "prompt_of ?st None"
  let ?A = "service_of (scripted throw_without_message)"
  have throw: "this_ai ?A [] (final_request ?A ?p 0) = Inl (Exn (Some []))"
    by (simp add: service_of_def scripted_def throw_without_message_def)
  then have "do_while ?A ?p 0 [] = (Inl (Exn (Some [])), [] @ [final_request ?A ?p 0])"
    by (rule do_while_throw)
  then have "fst (generateFinalResponse ?A ?st None [])
      = Inr (thrown_error_result (js ''Error al generar respuesta final''))"
    by (simp add: generateFinalResponse_thrown)
  moreover have "get (thrown_error_result (js ''Error al generar respuesta final'')) ''error'' \<noteq> Str []"
    by (simp add: thrown_error_result_def get_def)
  ultimately show ?thesis using throw by simp
qed

lemma binary64_literals:
  "binary64 (9 / 10) = 8106479329266893 / 9007199254740992"
  "binary64 (1 / 100) = 5764607523034235 / 576460752303423488"
  "binary64 (85 / 100) = 7656119366529843 / 9007199254740992"
  "binary64 (45 / 100) = 8106479329266893 / 18014398509481984"
  "binary64 1 = 1"
  "binary64 2048 = 2048"
  by code_simp+

lemma attempt_temperature_values:
  "binary64 (binary64 (9 / 10) + binary64 (of_nat (0::nat) * binary64 (1 / 100))) = binary64 (9 / 10)"
  "binary64 (binary64 (9 / 10) + binary64 (of_nat (1::nat) * binary64 (1 / 100))) = binary64 (91 / 100)"
  "binary64 (binary64 (9 / 10) + binary64 (of_nat (2::nat) * binary64 (1 / 100))) = binary64 (92 / 100)"
  "binary64 (binary64 (9 / 10) + binary64 (of_nat (3::nat) * binary64 (1 / 100))) = binary64 (93 / 100)"
  "binary64 (binary64 (9 / 10) + binary64 (of_nat (4::nat) * binary64 (1 / 100)))
     = binary64 (9400000000000001 / 10000000000000000)"
  by code_simp+

lemma attempt_4_is_not_094:
  "binary64 (9400000000000001 / 10000000000000000) \<noteq> 94 / 100"
  "binary64 (9400000000000001 / 10000000000000000) \<noteq> binary64 (94 / 100)"
  "binary64 (9400000000000001 / 10000000000000000) = binary64 (94 / 100) + 1 / 2 ^ 53"
  by code_simp+

lemma sent_temperatures_5:
  "map (\<lambda>req. temperature (config req)) (sent this p 0 5) = attempt_temperatures"
proof -
  have "[0..<0 + 5] = [0, 1, 2, 3, 4::nat]" by (simp add: upt_rec)
  then show ?thesis
    unfolding sent_def attempt_temperatures_def
    by (simp only: list.map final_request_def request.select_convs config.select_convs
          attempt_temperature_values)
qed

lemma take_sent: "m \<le> n \<Longrightarrow> take m (sent this p a n) = sent this p a m"
  by (simp add: sent_def take_map)

lemma sent_temperatures:
  assumes "m \<le> 5"
  shows "map (\<lambda>req. temperature (config req)) (sent this p 0 m) = take m attempt_temperatures"
proof -
  have "map (\<lambda>req. temperature (config req)) (sent this p 0 m)
      = map (\<lambda>req. temperature (config req)) (take m (sent this p 0 5))"
    using assms by (simp only: take_sent)
  also have "\<dots> = take m (map (\<lambda>req. temperature (config req)) (sent this p 0 5))"
    by (simp only: take_map)
  finally show ?thesis by (simp only: sent_temperatures_5)
qed

lemma generateFinalResponse_stops:
  assumes k: "k < 5"
    and blank: "\<forall>j<k. \<exists>r. this_ai this (h @ sent this (prompt_of st ctx) 0 j)
                       (final_request this (prompt_of st ctx) j) = Inr r \<and> emptyText (response_text r)"
    and last: "k = 4 \<or> (\<forall>r. this_ai this (h @ sent this (prompt_of st ctx) 0 k)
                       (final_request this (prompt_of st ctx) k) = Inr r \<longrightarrow>
                     \<not> emptyText (response_text r))"
  shows "snd (generateFinalResponse this st ctx h) = h @ sent this (prompt_of st ctx) 0 (k + 1)"
proof -
  let ?p = "prompt_of st ctx"
  let ?hk = "h @ sent this ?p 0 k"
  have "\<forall>j<k. \<exists>r. this_ai this (h @ sent this ?p 0 j) (final_request this ?p (0 + j)) = Inr r
          \<and> emptyText (response_text r)"
    using blank by simp
  moreover have "0 + k < maxAttempts" using k by (simp add: maxAttempts_def)
  ultimately have "do_while this ?p 0 h = do_while this ?p (0 + k) ?hk"
    by (rule do_while_skip)
  then have skip: "do_while this ?p 0 h = do_while this ?p k ?hk" by simp
  have "snd (do_while this ?p k ?hk) = ?hk @ [final_request this ?p k]"
  proof (cases "this_ai this ?hk (final_request this ?p k)")
    case (Inl e)
    then show ?thesis by (simp add: do_while_throw)
  next
    case (Inr r)
    from last Inr have "\<not> (emptyText (response_text r) \<and> k + 1 < maxAttempts)"
      by (auto simp: maxAttempts_def)
    with Inr show ?thesis by (simp add: do_while_stop del: append_assoc)
  qed
  then show ?thesis
    using skip sent_Suc[of this ?p 0 k] by (simp add: generateFinalResponse_snd)
qed

text \<open>
  Claim C7, as amended. The request of attempt \<open>n\<close>, counting the first attempt as
  \<open>0\<close>, carries the binary64 value of \<^verbatim>\<open>0.9 + n * 0.01\<close>: when the first \<open>k\<close> attempts
  return empty or blank text and attempt \<open>k\<close> is the last one (it is the fifth, or it
  throws, or its text is not empty), exactly \<open>k + 1\<close> requests are sent and their
  temperatures are, in order, the first \<open>k + 1\<close> of the doubles 0.9, 0.91, 0.92, 0.93 and
  0.9400000000000001. For attempts 0 to 3 that is the double nearest to
  \<open>0.90 + n * 0.01\<close>; for attempt 4 it is the next double above the one nearest to 0.94.
\<close>

theorem generateFinalResponse_temperatures:
  assumes k: "k < 5"
    and blank: "\<forall>j<k. \<exists>r. this_ai this (h @ sent this (prompt_of st ctx) 0 j)
                       (final_request this (prompt_of st ctx) j) = Inr r \<and> emptyText (response_text r)"
    and last: "k = 4 \<or> (\<forall>r. this_ai this (h @ sent this (prompt_of st ctx) 0 k)
                       (final_request this (prompt_of st ctx) k) = Inr r \<longrightarrow>
                     \<not> emptyText (response_text r))"
  shows "snd (generateFinalResponse this st ctx h) = h @ sent this (prompt_of st ctx) 0 (k + 1)
       \<and> map (\<lambda>req. temperature (config req)) (sent this (prompt_of st ctx) 0 (k + 1))
           = take (k + 1) attempt_temperatures"
proof -
  have "k + 1 \<le> 5" using k by simp
  then have "map (\<lambda>req. temperature (config req)) (sent this (prompt_of st ctx) 0 (k + 1))
           = take (k + 1) attempt_temperatures"
    by (rule sent_temperatures)
  with generateFinalResponse_stops[OF k blank last] show ?thesis by simp
qed

theorem generateFinalResponse_temperatures_witness:
  "map (\<lambda>req. temperature (config req))
     (snd (generateFinalResponse (service_of (scripted two_blank_then_hola))
             \<lparr>results = [], messages = []\<rparr> None []))
     = [binary64 (9 / 10), binary64 (91 / 100), binary64 (92 / 100)]"
proof -
  let ?st = "\<lparr>results = [], messages = []\<rparr>"
  let ?p = "prompt_of ?st None"
  let ?A = "service_of (scripted two_blank_then_hola)"
  have k: "(2::nat) < 5" by simp
  have blank: "\<forall>j<2. \<exists>r. this_ai ?A ([] @ sent ?A ?p 0 j) (final_request ?A ?p j) = Inr r
              \<and> emptyText (response_text r)"
    by (auto dest!: less_2_cases simp: service_of_def scripted_def two_blank_then_hola_def
          emptyText_examples)
  have last: "(2::nat) = 4 \<or> (\<forall>r. this_ai ?A ([] @ sent ?A ?p 0 2) (final_request ?A ?p 2) = Inr r
              \<longrightarrow> \<not> emptyText (response_text r))"
    by (simp add: service_of_def scripted_def two_blank_then_hola_def emptyText_examples)
  show ?thesis
    using generateFinalResponse_temperatures [OF k blank last]
    by (simp add: attempt_temperatures_def)
qed

text \<open>
  The claim as written fails at the fifth attempt: \<^verbatim>\<open>0.9 + 4 * 0.01\<close> is
  0.9400000000000001 in binary64, which is neither 0.94 nor the double nearest to it.
\<close>

theorem generateFinalResponse_temperatures_counterexample:
  "map (\<lambda>req. temperature (config req))
     (snd (generateFinalResponse (service_of (scripted five_blank))
             \<lparr>results = [], messages = []\<rparr> None []))
     = [binary64 (9 / 10), binary64 (91 / 100), binary64 (92 / 100), binary64 (93 / 100),
        binary64 (9400000000000001 / 10000000000000000)]
   \<and> binary64 (9400000000000001 / 10000000000000000) \<noteq> 94 / 100
   \<and> binary64 (9400000000000001 / 10000000000000000) \<noteq> binary64 (94 / 100)"
proof -
  let ?st = "\<lparr>results = [], messages = []\<rparr>"
  let ?p = "prompt_of ?st None"
  let ?B = "service_of (scripted five_blank)"
  have k: "(4::nat) < 5" by simp
  have blank: "\<forall>j<4. \<exists>r. this_ai ?B ([] @ sent ?B ?p 0 j) (final_request ?B ?p j) = Inr r
              \<and> emptyText (response_text r)"
    by (auto dest!: less_4_cases simp: service_of_def scripted_def five_blank_def
          emptyText_examples)
  have last: "(4::nat) = 4 \<or> (\<forall>r. this_ai ?B ([] @ sent ?B ?p 0 4) (final_request ?B ?p 4) = Inr r
              \<longrightarrow> \<not> emptyText (response_text r))"
    by simp
  have "snd (generateFinalResponse ?B ?st None []) = [] @ sent ?B ?p 0 (4 + 1)"
    using k blank last by (rule generateFinalResponse_stops)
  then have "map (\<lambda>req. temperature (config req)) (snd (generateFinalResponse ?B ?st None []))
      = attempt_temperatures"
    by (simp add: sent_temperatures_5)
  then show ?thesis
    using attempt_4_is_not_094(1,2) by (simp add: attempt_temperatures_def)
qed

subsection \<open>Composition of the prompt\<close>

lemma contextParts_concat:
  "contextParts st ctx =
     preamble @
     (if ctx \<noteq> [] then js ''\<newline>\<newline>Conversation history:\<newline>'' @ ctx else []) @
     (if messages st \<noteq> []
      then js ''\<newline>\<newline>User's messages:\<newline>'' @
           join (js ''\<newline>'') (mapi (\<lambda>msg i. decimal (i + 1) @ js ''. '' @ msg) (messages st))
      else []) @
     concat (concat (map (\<lambda>(type, items). mapi (mediaPart type) items) (results st)))"
  by (simp only: contextParts_def join_Nil_concat concat_filter_nonempty) simp



lemma capitalize_type_name: "capitalize (type_name type) = kind_title type"
  by (cases type) (simp_all add: capitalize_def toUpperCase_def js_def)

lemma label_eq:
  "(if type = Audio then js ''transcription''
    else if type = Document then js ''summary'' else js ''description'') = label type"
  by (cases type) simp_all

lemma mediaPart_item_blocks:
  "processing_result item \<Longrightarrow> mediaPart type item i = concat (item_blocks type i item)"
proof (cases "get item ''content''")
  case Undefined
  then show ?thesis by (simp add: mediaPart_def item_blocks_def)
next
  case (Str c)
  then show ?thesis
    by (simp add: mediaPart_def item_blocks_def labeled_block_def capitalize_type_name label_eq)
next
  case (Bool b)
  assume "processing_result item"
  with Bool show ?thesis
    by (cases item rule: content_shape.cases; cases item rule: failure_shape.cases)
       (auto simp: processing_result_def get_def)
next
  case (Obj ps)
  assume "processing_result item"
  with Obj show ?thesis
    by (cases item rule: content_shape.cases; cases item rule: failure_shape.cases)
       (auto simp: processing_result_def get_def)
qed

lemma media_parts_blocks:
  assumes "\<forall>(type, items) \<in> set rs. \<forall>item \<in> set items. processing_result item"
  shows "concat (concat (map (\<lambda>(type, items). mapi (mediaPart type) items) rs))
           = concat (media_blocks rs)"
proof -
  have inner: "concat (mapi (mediaPart type) items)
        = concat (concat (map (\<lambda>(index, item). item_blocks type index item) (enumerate 0 items)))"
    if "\<forall>item \<in> set items. processing_result item" for type items
  proof -
    have eq: "map (\<lambda>p. mediaPart type (snd p) (fst p)) (enumerate 0 items)
        = map (\<lambda>p. concat (item_blocks type (fst p) (snd p))) (enumerate 0 items)"
      using that by (intro map_cong) (auto simp: in_set_enumerate_eq mediaPart_item_blocks)
    have "concat (mapi (mediaPart type) items)
        = concat (map (\<lambda>p. mediaPart type (snd p) (fst p)) (enumerate 0 items))"
      by (simp add: mapi_def split_def)
    also have "\<dots> = concat (map (\<lambda>p. concat (item_blocks type (fst p) (snd p))) (enumerate 0 items))"
      by (simp only: eq)
    also have "\<dots> = concat (concat (map (\<lambda>(index, item). item_blocks type index item)
                                      (enumerate 0 items)))"
      by (simp add: concat_concat_map split_def)
    finally show ?thesis .
  qed
  from assms show ?thesis
  proof (induction rs)
    case Nil
    then show ?case by (simp add: media_blocks_def)
  next
    case (Cons p rs)
    obtain type items where p: "p = (type, items)" by (cases p)
    from Cons.prems p have "\<forall>item \<in> set items. processing_result item" by auto
    from inner[OF this, of type] Cons p show ?case
      by (simp add: media_blocks_def)
  qed
qed

text \<open>
  Claim C4. In the prompt \<^verbatim>\<open>generateFinalResponse\<close> composes from a status whose items
  are processing results, the part after the preamble, the history and the user's
  messages is the concatenation, kind by kind and item by item, of what each item
  contributes: an item whose content is a non-empty string contributes exactly one
  labeled block \<open>{Kind} {index+1} {label}: {content}\<close>, where the index is the
  position of the item in the list of its kind, counted from 1, and the label is
  \<open>transcription\<close> for audio, \<open>summary\<close> for document and \<open>description\<close>
  otherwise; an item with missing or empty content contributes nothing. A
  failure-shaped item contributes no block whatever its error text.
\<close>

theorem contextParts_media_blocks:
  assumes "\<forall>(type, items) \<in> set (results st). \<forall>item \<in> set items. processing_result item"
  shows "contextParts st ctx = contextParts (st\<lparr>results := []\<rparr>) ctx @ concat (media_blocks (results st))
       \<and> (\<forall>type index e.
             item_blocks type index [(''processed'', Bool False), (''error'', Str e)] = [])"
proof -
  have "contextParts st ctx = contextParts (st\<lparr>results := []\<rparr>) ctx
          @ concat (concat (map (\<lambda>(type, items). mapi (mediaPart type) items) (results st)))"
    by (simp add: contextParts_concat)
  then show ?thesis
    by (simp add: media_parts_blocks[OF assms] item_blocks_def get_def)
qed

theorem contextParts_media_blocks_witness:
  "contextParts cat_and_greeting [] =
     preamble @ js ''\<newline>\<newline>Image 2 description: un gato'' @ js ''\<newline>\<newline>Audio 1 transcription: hola''"
proof -
  have shapes: "\<forall>(type, items) \<in> set (results cat_and_greeting). \<forall>item \<in> set items. processing_result item"
    by (simp add: cat_and_greeting_def processing_result_def)
  have "concat (media_blocks (results cat_and_greeting))
      = js ''\<newline>\<newline>Image 2 description: un gato'' @ js ''\<newline>\<newline>Audio 1 transcription: hola''"
    by (simp add: cat_and_greeting_def media_blocks_def enumerate_eq_zip upt_rec item_blocks_def
          get_def labeled_block_def)
       (simp add: decimal.simps js_def)
  moreover have "contextParts (cat_and_greeting\<lparr>results := []\<rparr>) [] = preamble"
    by (simp add: contextParts_concat cat_and_greeting_def)
  ultimately show ?thesis
    using contextParts_media_blocks [OF shapes, of "[]"] by simp
qed

subsection \<open>Aggregation of the results\<close>

lemma Promise_all_kinds:
  "Promise_all (fst (start_all this files units h)) = Inr xs \<Longrightarrow> map fst xs = map fst units"
proof (induction units arbitrary: h xs)
  case Nil
  then show ?case by auto
next
  case (Cons u units)
  obtain type path where u: "u = (type, path)" by (cases u)
  obtain r h1 where p: "process type this files path h = (r, h1)" by (cases "process type this files path h")
  obtain rs h2 where s: "start_all this files units h1 = (rs, h2)" by (cases "start_all this files units h1")
  from Cons.prems u p s obtain result ys where
    "r = Inr result" "Promise_all rs = Inr ys" "xs = (type, result) # ys"
    by (cases r; cases "Promise_all rs") auto
  moreover from this s Cons.IH[of h1 ys] have "map fst ys = map fst units" by simp
  ultimately show ?case using u by simp
qed

lemma map_fst_push_result:
  "map fst (push_result acc (type, r)) =
     (if type \<in> fst ` set acc then map fst acc else map fst acc @ [type])"
proof -
  have "\<And>xs. map fst (map (\<lambda>(k, items). if k = type then (k, items @ [r]) else (k, items)) xs)
          = map fst xs"
    by (simp add: case_prod_beta)
  then show ?thesis
    by (simp add: push_result_def Let_def map_of_eq_None_iff)
qed

lemma map_of_bump:
  "map_of (map (\<lambda>(k, items). if k = type then (k, items @ [r]) else (k, items)) xs) k
     = (if k = type then map_option (\<lambda>items. items @ [r]) (map_of xs k) else map_of xs k)"
  by (induction xs) auto

lemma map_of_push_result:
  "map_of (push_result acc (type, r)) k =
     (if k = type then Some ((case map_of acc type of None \<Rightarrow> [] | Some items \<Rightarrow> items) @ [r])
      else map_of acc k)"
  by (cases "map_of acc type")
     (auto simp: push_result_def Let_def map_of_bump map_of_append map_add_def
           split: option.splits)

lemma foldl_push_result:
  "distinct (map fst acc) \<Longrightarrow>
   distinct (map fst (foldl push_result acc rs))
   \<and> map_of (foldl push_result acc rs) k =
       (case map_of acc k of
          None \<Rightarrow> if items_of rs k = [] then None else Some (items_of rs k)
        | Some items \<Rightarrow> Some (items @ items_of rs k))"
proof (induction rs arbitrary: acc)
  case Nil
  then show ?case by (simp add: items_of_def split: option.splits)
next
  case (Cons tr rs)
  obtain type r where tr: "tr = (type, r)" by (cases tr)
  have d: "distinct (map fst (push_result acc (type, r)))"
    using Cons.prems by (auto simp: map_fst_push_result)
  show ?case
    using Cons.IH[OF d] tr
    by (auto simp: map_of_push_result items_of_def split: option.splits)
qed

lemma length_units:
  "length (filter (\<lambda>u. fst u = type)
     (concat (map (\<lambda>(type, paths). map (\<lambda>path. (type, path)) paths)
        [(Image, images args), (Audio, audios args), (Video, videos args),
         (Sticker, stickers args), (Document, documents args)])))
   = length (paths_of args type)"
  by (cases type) (simp_all add: filter_map comp_def)

lemma length_items_of: "length (items_of rs type) = length (filter (\<lambda>k. k = type) (map fst rs))"
  by (simp add: items_of_def filter_map comp_def)

text \<open>
  Claim C10. When no processor's promise is rejected, the status \<^verbatim>\<open>processMessage\<close>
  builds has the caller's texts, unchanged and in order, as its messages; its results
  have a key for a kind exactly when at least one path of that kind was supplied (no key,
  rather than an empty list, for a kind without paths), each key occurs once, and the
  list under a key has as many results as paths of that kind were supplied.
\<close>

theorem aggregate_status:
  assumes "aggregate this files args h = (Inr st, h')"
  shows "messages st = texts args
       \<and> distinct (map fst (results st))
       \<and> (\<forall>type. (type \<in> fst ` set (results st)) = (paths_of args type \<noteq> []))
       \<and> (\<forall>type items. (type, items) \<in> set (results st) \<longrightarrow>
             length items = length (paths_of args type))"
proof -
  let ?units = "concat (map (\<lambda>(type, paths). map (\<lambda>path. (type, path)) paths)
        [(Image, images args), (Audio, audios args), (Video, videos args),
         (Sticker, stickers args), (Document, documents args)])"
  obtain promises h1 where s: "start_all this files ?units h = (promises, h1)"
    by (cases "start_all this files ?units h")
  from assms s obtain rs where rs: "Promise_all promises = Inr rs"
    and st: "st = \<lparr>results = foldl push_result [] rs, messages = texts args\<rparr>"
    by (cases "Promise_all promises") (auto simp: aggregate_def Let_def)
  from rs s have kinds: "map fst rs = map fst ?units"
    using Promise_all_kinds[of this files ?units h rs] by simp
  have len: "\<And>type. length (items_of rs type) = length (paths_of args type)"
  proof -
    fix type
    have "length (items_of rs type) = length (filter (\<lambda>k. k = type) (map fst ?units))"
      by (simp only: length_items_of kinds)
    also have "\<dots> = length (filter (\<lambda>u. fst u = type) ?units)"
      by (simp only: filter_map comp_def length_map)
    also have "\<dots> = length (paths_of args type)" by (rule length_units)
    finally show "length (items_of rs type) = length (paths_of args type)" .
  qed
  have grp: "distinct (map fst (results st))"
    "\<And>k. map_of (results st) k = (if items_of rs k = [] then None else Some (items_of rs k))"
    using foldl_push_result[of "[]" rs] st by simp_all
  have keys: "\<And>type. (type \<in> fst ` set (results st)) = (paths_of args type \<noteq> [])"
  proof -
    fix type
    have "(type \<in> fst ` set (results st)) = (map_of (results st) type \<noteq> None)"
      by (simp add: map_of_eq_None_iff)
    also have "\<dots> = (items_of rs type \<noteq> [])" by (simp add: grp(2))
    also have "\<dots> = (paths_of args type \<noteq> [])" using len[of type] by (metis length_0_conv)
    finally show "(type \<in> fst ` set (results st)) = (paths_of args type \<noteq> [])" .
  qed
  have lens: "\<And>type items. (type, items) \<in> set (results st) \<Longrightarrow>
             length items = length (paths_of args type)"
  proof -
    fix type items assume "(type, items) \<in> set (results st)"
    with grp(1) have "map_of (results st) type = Some items" by simp
    then have "items = items_of rs type" by (simp add: grp(2) split: if_splits)
    then show "length items = length (paths_of args type)" by (simp add: len)
  qed
  from st keys lens grp(1) show ?thesis by simp
qed

theorem aggregate_status_witness:
  "fst (aggregate (service_of (scripted [Inr (Response (Some (js ''un gato''))), Inl (Exn None),
                Inr (Response None)])) readable two_images_one_document [])
     = Inr \<lparr>results = [(Image, [[(''content'', Str (js ''un gato''))],
                                 [(''processed'', Bool False), (''error'', Str (js ''Error al procesar imagen''))]]),
                        (Document, [[(''content'', Undefined)]])],
             messages = [js ''hola'']\<rparr>"
proof -
  let ?A = "service_of (scripted [Inr (Response (Some (js ''un gato''))), Inl (Exn None),
                Inr (Response None)])"
  let ?h = "[media_request Image ?A (js ''QUJD''), media_request Image ?A (js ''QUJD''),
             media_request Document ?A (js ''QUJD'')]"
  let ?st = "\<lparr>results = [(Image, [[(''content'', Str (js ''un gato''))],
                                 [(''processed'', Bool False), (''error'', Str (js ''Error al procesar imagen''))]]),
                        (Document, [[(''content'', Undefined)]])],
             messages = [js ''hola'']\<rparr>"
  have r: "\<And>path. readFileSync readable path = Inr (js ''QUJD'')"
    by (simp add: readable_def readFileSync_def)
  have eq: "aggregate ?A readable two_images_one_document [] = (Inr ?st, ?h)"
    by (simp add: aggregate_def two_images_one_document_def process_unfold[OF r]
          service_of_def scripted_def push_result_def of_text_def
          del: media_request.simps process.simps)
  show ?thesis
    using aggregate_status [OF eq] eq by (simp add: two_images_one_document_def)
qed

lemma start_all_fulfilled:
  "\<forall>u \<in> set units. \<exists>d. readFileSync files (snd u) = Inr d \<Longrightarrow>
   \<exists>rs. Promise_all (fst (start_all this files units h)) = Inr rs"
proof (induction units arbitrary: h)
  case Nil
  then show ?case by simp
next
  case (Cons u units)
  obtain type path where u: "u = (type, path)" by (cases u)
  from Cons.prems u obtain d where d: "readFileSync files path = Inr d" by auto
  let ?h1 = "h @ [media_request type this d]"
  from Cons.prems have "\<forall>u \<in> set units. \<exists>d. readFileSync files (snd u) = Inr d" by simp
  from Cons.IH[OF this, of ?h1] obtain rs
    where rs: "Promise_all (fst (start_all this files units ?h1)) = Inr rs" by blast
  obtain ps h2 where s: "start_all this files units ?h1 = (ps, h2)"
    by (cases "start_all this files units ?h1")
  show ?case
    using rs s u
    by (cases "this_ai this h (media_request type this d)")
       (simp_all add: process_unfold[OF d] del: process.simps media_request.simps)
qed

lemma processMessage_fulfilled:
  assumes "\<forall>type. \<forall>path \<in> set (paths_of args type). \<exists>d. readFileSync files path = Inr d"
    and remote: "\<forall>h req. this_ai this h req \<noteq> Inl Thrown_undefined
                   \<and> this_ai this h req \<noteq> Inl Thrown_null"
  shows "\<exists>r. fst (processMessage this files args h) = Inr r \<and> get r ''status'' \<noteq> Undefined"
proof -
  let ?units = "concat (map (\<lambda>(type, paths). map (\<lambda>path. (type, path)) paths)
        [(Image, images args), (Audio, audios args), (Video, videos args),
         (Sticker, stickers args), (Document, documents args)])"
  have "\<forall>u \<in> set ?units. \<exists>d. readFileSync files (snd u) = Inr d"
    using assms(1)[rule_format, of _ Image] assms(1)[rule_format, of _ Audio]
      assms(1)[rule_format, of _ Video] assms(1)[rule_format, of _ Sticker]
      assms(1)[rule_format, of _ Document]
    by auto
  then obtain rs where rs: "Promise_all (fst (start_all this files ?units h)) = Inr rs"
    using start_all_fulfilled by blast
  obtain ps h1 where s: "start_all this files ?units h = (ps, h1)"
    by (cases "start_all this files ?units h")
  from rs s have "aggregate this files args h
      = (Inr \<lparr>results = foldl push_result [] rs, messages = texts args\<rparr>, h1)"
    by (simp add: aggregate_def)
  then show ?thesis
    using generateFinalResponse_fulfilled[OF remote] by (simp add: processMessage_def)
qed

subsection \<open>Errors that escape\<close>

text \<open>
  Claim C1 says that a processor turns every failure, a failure to read the file
  included, into the failure-shaped result, so that \<^verbatim>\<open>processMessage\<close> with one image
  path that fails to read and one text message still reaches the synthesis and returns a
  result with a status. The code does otherwise: the promise of \<^verbatim>\<open>processImage\<close> is
  rejected with the error of the read, \<^verbatim>\<open>Promise.all\<close> rejects, and the promise of
  \<^verbatim>\<open>processMessage\<close> is rejected with the same error; no request is sent, so the
  synthesis is never reached. (A throw of the remote call does become the failure-shaped
  result: \<open>process_unfold\<close>. With readable files, and a remote that throws neither
  \<^verbatim>\<open>undefined\<close> nor \<^verbatim>\<open>null\<close>, \<^verbatim>\<open>processMessage\<close> returns a result with a status:
  \<open>processMessage_fulfilled\<close>.)
\<close>

theorem processMessage_unreadable_image_rejects:
  "fst (processImage (service_of (example_client (Str (js ''key'')))) unreadable (js ''missing.jpg'') [])
     = Inl (Exn (Some (js ''ENOENT: no such file or directory'')))
   \<and> processMessage (service_of (example_client (Str (js ''key'')))) unreadable one_unreadable_image []
     = (Inl (Exn (Some (js ''ENOENT: no such file or directory''))), [])"
proof -
  have r: "\<And>path. readFileSync unreadable path = Inl (Exn (Some (js ''ENOENT: no such file or directory'')))"
    by (simp add: unreadable_def readFileSync_def)
  show ?thesis
    using process_unreadable[OF r, of Image]
    by (simp add: processMessage_def aggregate_def one_unreadable_image_def)
qed

text \<open>
  Claim C9 says that the constructor raises exactly when the credential is absent or
  empty, and that it is the only place of the module where an error escapes. The first
  part holds (\<open>new_GeminiService_raises_iff\<close>, \<open>new_GeminiService_constructs\<close>). The
  second does not hold of the code: on a service constructed with a non-empty credential,
  a processor whose file read throws rejects its promise.
\<close>

theorem processDocument_escapes_after_construction:
  "new_GeminiService example_client (Str (js ''key''))
     = Inr (service_of (example_client (Str (js ''key''))))
   \<and> processDocument (service_of (example_client (Str (js ''key'')))) unreadable (js ''missing.pdf'') []
     = (Inl (Exn (Some (js ''ENOENT: no such file or directory''))), [])"
proof -
  have r: "\<And>path. readFileSync unreadable path = Inl (Exn (Some (js ''ENOENT: no such file or directory'')))"
    by (simp add: unreadable_def readFileSync_def)
  show ?thesis
    using process_unreadable[OF r, of Document] new_GeminiService_constructs[of "js ''key''" example_client]
    by (simp add: service_of_def)
qed

end
